theory Spec2Isabelle
  imports Main "HOL-Library.Sublist"
begin

section \<open>Strings, arrays and numbers of the host language\<close>

text \<open>
  The builder is written in TypeScript. A string is modelled as a \<^typ>\<open>string\<close>, one
  \<^typ>\<open>char\<close> per code unit (code units below 256), an array as a list, and a number
  as an \<^typ>\<open>int\<close>: the numbers the builder prints are counts, ports and seconds, and
  an integer below \<open>10\<^sup>2\<^sup>1\<close> in magnitude prints in a template literal as its decimal
  digits. Fractions, larger numbers and NaN are outside the model.
\<close>

abbreviation NL :: string where
  "NL \<equiv> [CHR 0x0A]"

abbreviation indent_unit :: string where
  "indent_unit \<equiv> ''    ''"

text \<open>\<^verbatim>\<open>Array.prototype.join\<close>: the elements with the separator between them.\<close>

fun join :: "string \<Rightarrow> string list \<Rightarrow> string" where
  "join sep [] = []"
| "join sep [x] = x"
| "join sep (x # y # ys) = x @ sep @ join sep (y # ys)"

text \<open>\<^verbatim>\<open>String.prototype.endsWith\<close> for a one-character suffix.\<close>

definition endsWith :: "string \<Rightarrow> char \<Rightarrow> bool" where
  "endsWith s c = (case rev s of [] \<Rightarrow> False | x # _ \<Rightarrow> x = c)"

text \<open>
  \<^verbatim>\<open>String.prototype.trim\<close> removes white space and line terminators from both ends;
  these are the ones among the code units below 256.
\<close>

definition is_space :: "char \<Rightarrow> bool" where
  "is_space c = (c \<in> set [CHR 0x09, CHR 0x0A, CHR 0x0B, CHR 0x0C, CHR 0x0D, CHR 0x20, CHR 0xA0])"

definition trim :: "string \<Rightarrow> string" where
  "trim s = rev (dropWhile is_space (rev (dropWhile is_space s)))"

text \<open>A string is truthy when it is not empty.\<close>

definition truthy :: "string \<Rightarrow> bool" where
  "truthy s = (s \<noteq> [])"

text \<open>Decimal digits of a number in a template literal.\<close>

definition digit_char :: "int \<Rightarrow> char" where
  "digit_char d = ''0123456789'' ! nat d"

function show_digits :: "int \<Rightarrow> string" where
  "show_digits n = (if n < 10 then [digit_char n] else show_digits (n div 10) @ [digit_char (n mod 10)])"
  by pat_completeness auto
termination
  by (relation "measure nat") auto

declare show_digits.simps [simp del]

definition show_int :: "int \<Rightarrow> string" where
  "show_int i = (if i < 0 then ''-'' @ show_digits (- i) else show_digits i)"

definition on_off :: "bool \<Rightarrow> string" where
  "on_off b = (if b then ''on'' else ''off'')"

text \<open>The number of \<^verbatim>\<open>;\<close> characters a line ends with.\<close>

definition trailing_semicolons :: "string \<Rightarrow> nat" where
  "trailing_semicolons s = length (takeWhile (\<lambda>c. c = CHR '';'') (rev s))"


section \<open>The abstract block and its directive store\<close>

text \<open>
  \<^verbatim>\<open>abstract class Block { protected directives: string[] = []; ... }\<close>.
  Every concrete block kind extends this record, as its class extends \<^verbatim>\<open>Block\<close>.
\<close>

record block =
  directives :: "string list"

text \<open>
  \<^verbatim>\<open>addDirective(directive)\<close>: appends a semicolon if the directive does not end with
  one, pushes the line, returns the block.
\<close>

definition terminate :: "string \<Rightarrow> string" where
  "terminate directive = (if \<not> endsWith directive CHR '';'' then directive @ '';'' else directive)"

definition addDirective :: "string \<Rightarrow> 'a block_scheme \<Rightarrow> 'a block_scheme" where
  "addDirective directive b = b\<lparr>directives := directives b @ [terminate directive]\<rparr>"

text \<open>\<^verbatim>\<open>formatDirectives(indent)\<close>: every line behind the indent, joined by newlines.\<close>

definition formatDirectives :: "string \<Rightarrow> 'a block_scheme \<Rightarrow> string" where
  "formatDirectives indent b = join NL (map (\<lambda>d. indent @ d) (directives b))"


section \<open>Leaf blocks\<close>

text \<open>\<^verbatim>\<open>class EventsBlock extends Block\<close> adds no field.\<close>

type_synonym events_block = block

definition EventsBlock_build :: "events_block \<Rightarrow> string" where
  "EventsBlock_build e =
     (let directives = formatDirectives indent_unit e
      in ''events {'' @ NL @ directives @ NL @ ''}'')"

text \<open>\<^verbatim>\<open>class IfBlock extends Block { constructor(private condition: string) }\<close>\<close>

record if_block = block +
  condition :: string

definition IfBlock_build :: "string \<Rightarrow> if_block \<Rightarrow> string" where
  "IfBlock_build indent b =
     (let inner = join NL (map (\<lambda>d. indent @ indent_unit @ d) (directives b))
      in indent @ ''if ('' @ condition b @ '') {'' @ NL @ inner @ NL @ indent @ ''}'')"

text \<open>\<^verbatim>\<open>class MapBlock extends Block\<close> with its \<^verbatim>\<open>MapItem { key; value }\<close> list.\<close>

record map_item =
  item_key :: string
  item_value :: string

record map_block = block +
  variable :: string
  outputVar :: string
  items :: "map_item list"

definition MapBlock_set :: "string \<Rightarrow> string \<Rightarrow> map_block \<Rightarrow> map_block" where
  "MapBlock_set k v b = b\<lparr>items := items b @ [\<lparr>item_key = k, item_value = v\<rparr>]\<rparr>"

definition MapBlock_build :: "string \<Rightarrow> map_block \<Rightarrow> string" where
  "MapBlock_build indent b =
     (let its = join NL (map (\<lambda>i. indent @ item_key i @ '' '' @ item_value i @ '';'') (items b))
      in indent @ ''map '' @ variable b @ '' '' @ outputVar b @ '' {'' @ NL @ its @ NL @ indent @ ''}'')"

text \<open>\<^verbatim>\<open>class UpstreamBlock extends Block { constructor(private name: string) }\<close>\<close>

record upstream_block = block +
  name :: string

text \<open>\<^verbatim>\<open>interface ServerOptions\<close>: every field optional (\<open>None\<close> is \<^verbatim>\<open>undefined\<close>).\<close>

record server_options =
  weight :: "int option"
  maxFails :: "int option"
  failTimeout :: "string option"
  backup :: "bool option"
  down :: "bool option"

text \<open>
  \<^verbatim>\<open>server(address, options)\<close>: the parts array starts with the address; each
  modifier is pushed under its own test (\<^verbatim>\<open>!== undefined\<close> for the two numbers,
  truthiness for the time and the two flags); the parts are joined by one space.
\<close>

definition UpstreamBlock_server :: "string \<Rightarrow> server_options \<Rightarrow> upstream_block \<Rightarrow> upstream_block" where
  "UpstreamBlock_server address options u =
     (let parts = [address];
          parts = (case weight options of Some w \<Rightarrow> parts @ [''weight='' @ show_int w] | None \<Rightarrow> parts);
          parts = (case maxFails options of Some m \<Rightarrow> parts @ [''max_fails='' @ show_int m] | None \<Rightarrow> parts);
          parts = (case failTimeout options of
                     Some t \<Rightarrow> if truthy t then parts @ [''fail_timeout='' @ t] else parts
                   | None \<Rightarrow> parts);
          parts = (if backup options = Some True then parts @ [''backup''] else parts);
          parts = (if down options = Some True then parts @ [''down''] else parts)
      in addDirective (''server '' @ join '' '' parts) u)"

definition UpstreamBlock_build :: "string \<Rightarrow> upstream_block \<Rightarrow> string" where
  "UpstreamBlock_build indent u =
     (let blockIndent = indent @ indent_unit;
          directives = formatDirectives blockIndent u
      in indent @ ''upstream '' @ name u @ '' {'' @ NL @ directives @ NL @ indent @ ''}'')"


section \<open>Structural blocks: location and server\<close>

record location_block = block +
  path :: string
  exact :: bool
  ifBlocks :: "if_block list"

definition LocationBlock_new :: "string \<Rightarrow> bool \<Rightarrow> location_block" where
  "LocationBlock_new p e = \<lparr>directives = [], path = p, exact = e, ifBlocks = []\<rparr>"

definition LocationBlock_build :: "string \<Rightarrow> location_block \<Rightarrow> string" where
  "LocationBlock_build indent l =
     (let blockIndent = indent @ indent_unit;
          prefix = (if exact l then ''='' else []);
          directives = formatDirectives blockIndent l;
          ifs = join (NL @ NL) (map (IfBlock_build blockIndent) (ifBlocks l))
      in indent @ ''location '' @ prefix @ '' '' @ path l @ '' {'' @ NL @ directives
         @ (if truthy ifs then NL @ NL @ ifs else []) @ NL @ indent @ ''}'')"

text \<open>\<^verbatim>\<open>addHeader(name, value)\<close> and \<^verbatim>\<open>enableCors(options = {})\<close> of the location block.\<close>

definition addHeader :: "string \<Rightarrow> string \<Rightarrow> location_block \<Rightarrow> location_block" where
  "addHeader nm v l = addDirective (''add_header '' @ nm @ '' '' @ v) l"

record cors_options =
  origins :: "string list option"
  methods :: "string list option"
  headers :: "string list option"
  credentials :: "bool option"
  maxAge :: "int option"

text \<open>The call without an argument: the empty options object.\<close>

definition cors_no_options :: cors_options where
  "cors_no_options = \<lparr>origins = None, methods = None, headers = None, credentials = None, maxAge = None\<rparr>"

definition enableCors :: "cors_options \<Rightarrow> location_block \<Rightarrow> location_block" where
  "enableCors options l =
     (let origins' = (case origins options of None \<Rightarrow> [''*''] | Some x \<Rightarrow> x);
          methods' = (case methods options of None \<Rightarrow> [''GET'', ''POST'', ''OPTIONS''] | Some x \<Rightarrow> x);
          headers' = (case headers options of
                        None \<Rightarrow> [''DNT'', ''X-CustomHeader'', ''Keep-Alive'', ''User-Agent'']
                      | Some x \<Rightarrow> x);
          credentials' = (case credentials options of None \<Rightarrow> False | Some x \<Rightarrow> x);
          maxAge' = (case maxAge options of None \<Rightarrow> 1728000 | Some x \<Rightarrow> x);
          l = addHeader ''Access-Control-Allow-Origin'' (join '' '' origins') l;
          l = addHeader ''Access-Control-Allow-Methods'' (join '' '' methods') l;
          l = addHeader ''Access-Control-Allow-Headers'' (join '' '' headers') l;
          l = (if credentials' then addHeader ''Access-Control-Allow-Credentials'' ''true'' l else l);
          l = addHeader ''Access-Control-Max-Age'' (show_int maxAge') l
      in l)"

record server_block = block +
  locations :: "location_block list"

text \<open>A port number or a Unix socket path (\<^verbatim>\<open>number | string\<close>), as a template prints it.\<close>

datatype str_or_num = Str string | Num int

fun to_text :: "str_or_num \<Rightarrow> string" where
  "to_text (Str s) = s"
| "to_text (Num n) = show_int n"

definition listen :: "str_or_num \<Rightarrow> bool \<Rightarrow> server_block \<Rightarrow> server_block" where
  "listen portOrUnix ssl s =
     addDirective (''listen '' @ to_text portOrUnix @ (if ssl then '' ssl'' else [])) s"

definition ServerBlock_new :: server_block where
  "ServerBlock_new = \<lparr>directives = [], locations = []\<rparr>"

definition ServerBlock_build :: "string \<Rightarrow> server_block \<Rightarrow> string" where
  "ServerBlock_build indent s =
     (let blockIndent = indent @ indent_unit;
          directives = formatDirectives blockIndent s;
          locs = join (NL @ NL) (map (LocationBlock_build blockIndent) (locations s))
      in indent @ ''server {'' @ NL @ directives
         @ (if truthy locs then NL @ NL @ locs else []) @ NL @ indent @ ''}'')"


section \<open>The typed option set of the HTTP block\<close>

text \<open>
  \<^verbatim>\<open>interface HttpTypedDirectives\<close>: eight optional fields. The object that holds them
  is modelled as the list of its own properties in insertion order, one constructor per
  field; the argument \<open>None\<close> is a property that is present and holds \<^verbatim>\<open>undefined\<close>
  (\<^verbatim>\<open>{ sendfile: undefined }\<close>), which the optional field types admit.
\<close>

datatype typed_prop =
    Sendfile "bool option"
  | Keepalive_timeout "int option"
  | Client_max_body_size "string option"
  | Default_type "string option"
  | Gzip "bool option"
  | Gzip_types "string list option"
  | Tcp_nopush "bool option"
  | Tcp_nodelay "bool option"

datatype typed_key =
    K_sendfile | K_keepalive_timeout | K_client_max_body_size | K_default_type
  | K_gzip | K_gzip_types | K_tcp_nopush | K_tcp_nodelay

fun key_of :: "typed_prop \<Rightarrow> typed_key" where
  "key_of (Sendfile _) = K_sendfile"
| "key_of (Keepalive_timeout _) = K_keepalive_timeout"
| "key_of (Client_max_body_size _) = K_client_max_body_size"
| "key_of (Default_type _) = K_default_type"
| "key_of (Gzip _) = K_gzip"
| "key_of (Gzip_types _) = K_gzip_types"
| "key_of (Tcp_nopush _) = K_tcp_nopush"
| "key_of (Tcp_nodelay _) = K_tcp_nodelay"

type_synonym typed_object = "typed_prop list"

text \<open>
  Assignment to a property: an existing property keeps its place and takes the new
  value, a new one goes to the end.
\<close>

fun set_prop :: "typed_prop \<Rightarrow> typed_object \<Rightarrow> typed_object" where
  "set_prop p [] = [p]"
| "set_prop p (q # qs) = (if key_of q = key_of p then p # qs else q # set_prop p qs)"

text \<open>
  \<^verbatim>\<open>Object.assign(target, source)\<close>: every own property of the source, in the
  source's order, is assigned to the target; a property holding \<^verbatim>\<open>undefined\<close> is
  copied like any other.
\<close>

definition Object_assign :: "typed_object \<Rightarrow> typed_object \<Rightarrow> typed_object" where
  "Object_assign target source = foldl (\<lambda>t p. set_prop p t) target source"

text \<open>Reading a property: a missing one reads as \<^verbatim>\<open>undefined\<close>.\<close>

definition lookup_prop :: "typed_key \<Rightarrow> typed_object \<Rightarrow> typed_prop option" where
  "lookup_prop k t = find (\<lambda>p. key_of p = k) t"

definition sendfile_of :: "typed_object \<Rightarrow> bool option" where
  "sendfile_of t = (case lookup_prop K_sendfile t of Some (Sendfile v) \<Rightarrow> v | _ \<Rightarrow> None)"

definition keepalive_timeout_of :: "typed_object \<Rightarrow> int option" where
  "keepalive_timeout_of t =
     (case lookup_prop K_keepalive_timeout t of Some (Keepalive_timeout v) \<Rightarrow> v | _ \<Rightarrow> None)"

definition client_max_body_size_of :: "typed_object \<Rightarrow> string option" where
  "client_max_body_size_of t =
     (case lookup_prop K_client_max_body_size t of Some (Client_max_body_size v) \<Rightarrow> v | _ \<Rightarrow> None)"

definition default_type_of :: "typed_object \<Rightarrow> string option" where
  "default_type_of t = (case lookup_prop K_default_type t of Some (Default_type v) \<Rightarrow> v | _ \<Rightarrow> None)"

definition gzip_of :: "typed_object \<Rightarrow> bool option" where
  "gzip_of t = (case lookup_prop K_gzip t of Some (Gzip v) \<Rightarrow> v | _ \<Rightarrow> None)"

definition gzip_types_of :: "typed_object \<Rightarrow> string list option" where
  "gzip_types_of t = (case lookup_prop K_gzip_types t of Some (Gzip_types v) \<Rightarrow> v | _ \<Rightarrow> None)"

definition tcp_nopush_of :: "typed_object \<Rightarrow> bool option" where
  "tcp_nopush_of t = (case lookup_prop K_tcp_nopush t of Some (Tcp_nopush v) \<Rightarrow> v | _ \<Rightarrow> None)"

definition tcp_nodelay_of :: "typed_object \<Rightarrow> bool option" where
  "tcp_nodelay_of t = (case lookup_prop K_tcp_nodelay t of Some (Tcp_nodelay v) \<Rightarrow> v | _ \<Rightarrow> None)"


section \<open>The HTTP block\<close>

record http_block = block +
  servers :: "server_block list"
  upstreams :: "upstream_block list"
  maps :: "map_block list"
  typedDirectives :: typed_object

definition HttpBlock_new :: http_block where
  "HttpBlock_new = \<lparr>directives = [], servers = [], upstreams = [], maps = [], typedDirectives = []\<rparr>"

definition applyTypedDirectives :: "typed_object \<Rightarrow> http_block \<Rightarrow> http_block" where
  "applyTypedDirectives d h = h\<lparr>typedDirectives := Object_assign (typedDirectives h) d\<rparr>"

text \<open>The three \<^verbatim>\<open>add*\<close> operations push the new child; here they return the parent.\<close>

definition addServer :: "str_or_num \<Rightarrow> bool \<Rightarrow> http_block \<Rightarrow> http_block" where
  "addServer portOrUnix ssl h = h\<lparr>servers := servers h @ [listen portOrUnix ssl ServerBlock_new]\<rparr>"

definition addUpstream :: "string \<Rightarrow> http_block \<Rightarrow> http_block" where
  "addUpstream nm h = h\<lparr>upstreams := upstreams h @ [\<lparr>directives = [], name = nm\<rparr>]\<rparr>"

definition addMap :: "string \<Rightarrow> string \<Rightarrow> http_block \<Rightarrow> http_block" where
  "addMap v out h =
     h\<lparr>maps := maps h @ [\<lparr>directives = [], variable = v, outputVar = out, items = []\<rparr>]\<rparr>"

text \<open>
  \<^verbatim>\<open>buildTypedDirectives()\<close>: eight tests in the order of the source, each pushing at
  most one line. The tests differ: \<^verbatim>\<open>!== undefined\<close> for the booleans,
  \<^verbatim>\<open>typeof ... === "number"\<close> for the timeout, truthiness for the two strings, and
  truthiness with a positive length for the list.
\<close>

definition buildTypedDirectives :: "http_block \<Rightarrow> string list" where
  "buildTypedDirectives h =
     (let t = typedDirectives h;
          lines = [];
          lines = (case sendfile_of t of
                     Some v \<Rightarrow> lines @ [''sendfile '' @ on_off v @ '';''] | None \<Rightarrow> lines);
          lines = (case keepalive_timeout_of t of
                     Some n \<Rightarrow> lines @ [''keepalive_timeout '' @ show_int n @ '';''] | None \<Rightarrow> lines);
          lines = (case client_max_body_size_of t of
                     Some s \<Rightarrow> if truthy s then lines @ [''client_max_body_size '' @ s @ '';''] else lines
                   | None \<Rightarrow> lines);
          lines = (case default_type_of t of
                     Some s \<Rightarrow> if truthy s then lines @ [''default_type '' @ s @ '';''] else lines
                   | None \<Rightarrow> lines);
          lines = (case gzip_of t of
                     Some v \<Rightarrow> lines @ [''gzip '' @ on_off v @ '';''] | None \<Rightarrow> lines);
          lines = (case gzip_types_of t of
                     Some ts \<Rightarrow> if length ts > 0 then lines @ [''gzip_types '' @ join '' '' ts @ '';''] else lines
                   | None \<Rightarrow> lines);
          lines = (case tcp_nopush_of t of
                     Some v \<Rightarrow> lines @ [''tcp_nopush '' @ on_off v @ '';''] | None \<Rightarrow> lines);
          lines = (case tcp_nodelay_of t of
                     Some v \<Rightarrow> lines @ [''tcp_nodelay '' @ on_off v @ '';''] | None \<Rightarrow> lines)
      in lines)"

text \<open>The five content groups of \<^verbatim>\<open>HttpBlock.build\<close>, each a text.\<close>

definition typed_group :: "string \<Rightarrow> http_block \<Rightarrow> string" where
  "typed_group blockIndent h = join NL (map (\<lambda>d. blockIndent @ d) (buildTypedDirectives h))"

definition directive_group :: "string \<Rightarrow> http_block \<Rightarrow> string" where
  "directive_group blockIndent h = join NL (map (\<lambda>d. blockIndent @ d) (directives h))"

definition upstream_group :: "string \<Rightarrow> http_block \<Rightarrow> string" where
  "upstream_group blockIndent h = join (NL @ NL) (map (UpstreamBlock_build blockIndent) (upstreams h))"

definition map_group :: "string \<Rightarrow> http_block \<Rightarrow> string" where
  "map_group blockIndent h = join (NL @ NL) (map (MapBlock_build blockIndent) (maps h))"

definition server_group :: "string \<Rightarrow> http_block \<Rightarrow> string" where
  "server_group blockIndent h = join (NL @ NL) (map (ServerBlock_build blockIndent) (servers h))"

definition HttpBlock_build :: "string \<Rightarrow> http_block \<Rightarrow> string" where
  "HttpBlock_build indent h =
     (let blockIndent = indent @ indent_unit;
          typed = typed_group blockIndent h;
          blockDirectives = directive_group blockIndent h;
          ups = upstream_group blockIndent h;
          mps = map_group blockIndent h;
          srvs = server_group blockIndent h;
          parts = join (NL @ NL) (filter (\<lambda>part. truthy (trim part)) [typed, blockDirectives, ups, mps, srvs])
      in if truthy (trim parts)
         then indent @ ''http {'' @ NL @ parts @ NL @ indent @ ''}''
         else indent @ ''http {}'')"


section \<open>The two document roots\<close>

record nginx_config =
  userDirective :: "string option"
  workerProcessesDirective :: "string option"
  pidDirective :: "string option"
  eventsBlock :: "events_block option"
  httpBlock :: "http_block option"

definition NginxConfig_new :: nginx_config where
  "NginxConfig_new = \<lparr>userDirective = None, workerProcessesDirective = None, pidDirective = None,
     eventsBlock = None, httpBlock = None\<rparr>"

definition user :: "string \<Rightarrow> nginx_config \<Rightarrow> nginx_config" where
  "user u c = c\<lparr>userDirective := Some (''user '' @ u @ '';'')\<rparr>"

definition workerProcesses :: "str_or_num \<Rightarrow> nginx_config \<Rightarrow> nginx_config" where
  "workerProcesses v c = c\<lparr>workerProcessesDirective := Some (''worker_processes '' @ to_text v @ '';'')\<rparr>"

definition pid :: "string \<Rightarrow> nginx_config \<Rightarrow> nginx_config" where
  "pid p c = c\<lparr>pidDirective := Some (''pid '' @ p @ '';'')\<rparr>"

text \<open>\<^verbatim>\<open>events()\<close> and \<^verbatim>\<open>http()\<close> create the singleton block on first use.\<close>

definition events :: "nginx_config \<Rightarrow> nginx_config" where
  "events c = (case eventsBlock c of None \<Rightarrow> c\<lparr>eventsBlock := Some \<lparr>directives = []\<rparr>\<rparr> | Some _ \<Rightarrow> c)"

definition http :: "nginx_config \<Rightarrow> nginx_config" where
  "http c = (case httpBlock c of None \<Rightarrow> c\<lparr>httpBlock := Some HttpBlock_new\<rparr> | Some _ \<Rightarrow> c)"

text \<open>\<^verbatim>\<open>if (this.userDirective) parts.push(this.userDirective)\<close>: a set, non-empty string.\<close>

definition push_directive :: "string option \<Rightarrow> string list \<Rightarrow> string list" where
  "push_directive d parts = (case d of Some s \<Rightarrow> if truthy s then parts @ [s] else parts | None \<Rightarrow> parts)"

definition NginxConfig_build :: "nginx_config \<Rightarrow> string" where
  "NginxConfig_build c =
     (let parts = [];
          parts = push_directive (userDirective c) parts;
          parts = push_directive (workerProcessesDirective c) parts;
          parts = push_directive (pidDirective c) parts;
          parts = (case eventsBlock c of Some e \<Rightarrow> parts @ [EventsBlock_build e] | None \<Rightarrow> parts);
          parts = (case httpBlock c of Some h \<Rightarrow> parts @ [HttpBlock_build [] h] | None \<Rightarrow> parts)
      in join (NL @ NL) parts @ NL)"

text \<open>
  \<^verbatim>\<open>class SiteConfig\<close> is not a block; it has a directive array and a server array of
  its own.
\<close>

record site_config =
  site_directives :: "string list"
  site_servers :: "server_block list"

definition SiteConfig_new :: site_config where
  "SiteConfig_new = \<lparr>site_directives = [], site_servers = []\<rparr>"

definition site_include :: "string \<Rightarrow> site_config \<Rightarrow> site_config" where
  "site_include p sc = sc\<lparr>site_directives := site_directives sc @ [''include '' @ p @ '';'']\<rparr>"

definition site_addServer :: "str_or_num \<Rightarrow> bool \<Rightarrow> site_config \<Rightarrow> site_config" where
  "site_addServer portOrUnix ssl sc =
     sc\<lparr>site_servers := site_servers sc @ [listen portOrUnix ssl ServerBlock_new]\<rparr>"

definition SiteConfig_build :: "site_config \<Rightarrow> string" where
  "SiteConfig_build sc =
     (let directives = join NL (map (\<lambda>d. if endsWith d CHR '';'' then d else d @ '';'') (site_directives sc));
          srvs = join NL (map (ServerBlock_build []) (site_servers sc));
          parts = join NL (filter truthy [directives, srvs])
      in parts @ NL)"


section \<open>Reading the rendered lines\<close>

text \<open>The directive name of a rendered line: the text before its first space.\<close>

definition directive_name :: "string \<Rightarrow> string" where
  "directive_name l = takeWhile (\<lambda>c. c \<noteq> CHR '' '') l"

text \<open>The directive names of the eight typed options in the field order of the schema.\<close>

definition schema_order :: "string list" where
  "schema_order = [''sendfile'', ''keepalive_timeout'', ''client_max_body_size'', ''default_type'',
     ''gzip'', ''gzip_types'', ''tcp_nopush'', ''tcp_nodelay'']"

text \<open>A property that is present and holds \<^verbatim>\<open>undefined\<close>, and the directive name of a key.\<close>

fun holds_undefined :: "typed_prop \<Rightarrow> bool" where
  "holds_undefined (Sendfile v) = (v = None)"
| "holds_undefined (Keepalive_timeout v) = (v = None)"
| "holds_undefined (Client_max_body_size v) = (v = None)"
| "holds_undefined (Default_type v) = (v = None)"
| "holds_undefined (Gzip v) = (v = None)"
| "holds_undefined (Gzip_types v) = (v = None)"
| "holds_undefined (Tcp_nopush v) = (v = None)"
| "holds_undefined (Tcp_nodelay v) = (v = None)"

fun key_name :: "typed_key \<Rightarrow> string" where
  "key_name K_sendfile = ''sendfile''"
| "key_name K_keepalive_timeout = ''keepalive_timeout''"
| "key_name K_client_max_body_size = ''client_max_body_size''"
| "key_name K_default_type = ''default_type''"
| "key_name K_gzip = ''gzip''"
| "key_name K_gzip_types = ''gzip_types''"
| "key_name K_tcp_nopush = ''tcp_nopush''"
| "key_name K_tcp_nodelay = ''tcp_nodelay''"

text \<open>
  The typed-option lines as the specification words them: the fields are visited in the
  fixed order of the schema, and each one that is present produces its line. An option
  holding \<^verbatim>\<open>undefined\<close>, an empty string or an empty list produces none. The code
  tests the fields one after the other and pushes; the two are compared below.
\<close>

definition schema_keys :: "typed_key list" where
  "schema_keys = [K_sendfile, K_keepalive_timeout, K_client_max_body_size, K_default_type,
     K_gzip, K_gzip_types, K_tcp_nopush, K_tcp_nodelay]"

fun spec_option_line :: "typed_prop \<Rightarrow> string list" where
  "spec_option_line (Sendfile v) = (case v of Some b \<Rightarrow> [''sendfile '' @ on_off b @ '';''] | None \<Rightarrow> [])"
| "spec_option_line (Keepalive_timeout v) =
     (case v of Some n \<Rightarrow> [''keepalive_timeout '' @ show_int n @ '';''] | None \<Rightarrow> [])"
| "spec_option_line (Client_max_body_size v) =
     (case v of Some s \<Rightarrow> if s \<noteq> [] then [''client_max_body_size '' @ s @ '';''] else [] | None \<Rightarrow> [])"
| "spec_option_line (Default_type v) =
     (case v of Some s \<Rightarrow> if s \<noteq> [] then [''default_type '' @ s @ '';''] else [] | None \<Rightarrow> [])"
| "spec_option_line (Gzip v) = (case v of Some b \<Rightarrow> [''gzip '' @ on_off b @ '';''] | None \<Rightarrow> [])"
| "spec_option_line (Gzip_types v) =
     (case v of Some ts \<Rightarrow> if ts \<noteq> [] then [''gzip_types '' @ join '' '' ts @ '';''] else [] | None \<Rightarrow> [])"
| "spec_option_line (Tcp_nopush v) = (case v of Some b \<Rightarrow> [''tcp_nopush '' @ on_off b @ '';''] | None \<Rightarrow> [])"
| "spec_option_line (Tcp_nodelay v) = (case v of Some b \<Rightarrow> [''tcp_nodelay '' @ on_off b @ '';''] | None \<Rightarrow> [])"

definition spec_typed_lines :: "typed_object \<Rightarrow> string list" where
  "spec_typed_lines t =
     concat (map (\<lambda>k. case lookup_prop k t of Some p \<Rightarrow> spec_option_line p | None \<Rightarrow> []) schema_keys)"


section \<open>The server line of the specification\<close>

text \<open>
  The pool-member line as the specification words it: the address followed by the
  modifiers that were supplied, in the order weight, max_fails, fail_timeout, backup,
  down. The code builds an array of parts and joins it; the two are compared below.
\<close>

definition spec_server_line :: "string \<Rightarrow> server_options \<Rightarrow> string" where
  "spec_server_line address options =
     ''server '' @ address
     @ (case weight options of Some w \<Rightarrow> '' weight='' @ show_int w | None \<Rightarrow> [])
     @ (case maxFails options of Some m \<Rightarrow> '' max_fails='' @ show_int m | None \<Rightarrow> [])
     @ (case failTimeout options of Some t \<Rightarrow> if t \<noteq> [] then '' fail_timeout='' @ t else [] | None \<Rightarrow> [])
     @ (if backup options = Some True then '' backup'' else [])
     @ (if down options = Some True then '' down'' else [])"


section \<open>The end of the rendered text\<close>

text \<open>The text ends with a newline, and the character before it, if any, is not one.\<close>

definition one_trailing_newline :: "string \<Rightarrow> bool" where
  "one_trailing_newline t =
     (case rev t of [] \<Rightarrow> False
      | c # r \<Rightarrow> c = CHR 0x0A \<and> (case r of [] \<Rightarrow> True | c' # _ \<Rightarrow> c' \<noteq> CHR 0x0A))"

text \<open>
  The three directive fields of the full document are written only by their setters,
  which store a line that ends with the separator.
\<close>

definition terminated_field :: "string option \<Rightarrow> bool" where
  "terminated_field d = (case d of None \<Rightarrow> True | Some s \<Rightarrow> endsWith s CHR '';'')"

definition directive_fields_terminated :: "nginx_config \<Rightarrow> bool" where
  "directive_fields_terminated c =
     (terminated_field (userDirective c) \<and> terminated_field (workerProcessesDirective c)
      \<and> terminated_field (pidDirective c))"


section \<open>The groups of the specification\<close>

text \<open>
  The content groups as the specification words their concatenation: an empty group
  contributes nothing, and exactly one blank line stands between two non-empty groups.
  The code filters the groups and joins them; the two are compared below.
\<close>

fun spec_separate_groups :: "string list \<Rightarrow> string" where
  "spec_separate_groups [] = []"
| "spec_separate_groups (g # gs) =
     (if g = [] then spec_separate_groups gs
      else if spec_separate_groups gs = [] then g
      else g @ NL @ NL @ spec_separate_groups gs)"

text \<open>
  The directive store is written only by the append operation, so every line in it ends
  with the separator.
\<close>

definition store_terminated :: "'a block_scheme \<Rightarrow> bool" where
  "store_terminated b = list_all (\<lambda>d. endsWith d CHR '';'') (directives b)"


section \<open>An example document\<close>

text \<open>
  A document with an HTTP section, one server, one location with a directive and a
  conditional section.
\<close>

definition example_location :: location_block where
  "example_location =
     \<lparr>directives = [''root /var/www/html;''], path = ''/'', exact = False,
      ifBlocks = [\<lparr>directives = [''return 405;''], condition = ''$request_method = POST''\<rparr>]\<rparr>"

definition example_server :: server_block where
  "example_server = \<lparr>directives = [''listen 80;''], locations = [example_location]\<rparr>"

definition example_http :: http_block where
  "example_http = HttpBlock_new\<lparr>servers := [example_server]\<rparr>"

definition example_document :: nginx_config where
  "example_document = NginxConfig_new\<lparr>httpBlock := Some example_http\<rparr>"


section \<open>Facts about strings\<close>

lemma endsWith_snoc [simp]: "endsWith (s @ [c]) d \<longleftrightarrow> c = d"
  by (simp add: endsWith_def)

lemma endsWith_Nil [simp]: "\<not> endsWith [] c"
  by (simp add: endsWith_def)

lemma endsWith_iff: "endsWith s c \<longleftrightarrow> s \<noteq> [] \<and> last s = c"
  by (cases s rule: rev_cases) simp_all

lemma endsWith_terminate: "endsWith (terminate s) CHR '';''"
  by (simp add: terminate_def)

lemma trailing_semicolons_snoc:
  "trailing_semicolons (s @ [c]) = (if c = CHR '';'' then Suc (trailing_semicolons s) else 0)"
  by (simp add: trailing_semicolons_def)

lemma trailing_semicolons_zero: "\<not> endsWith s CHR '';'' \<Longrightarrow> trailing_semicolons s = 0"
  by (cases s rule: rev_cases) (simp_all add: trailing_semicolons_def)


section \<open>The append operation\<close>

text \<open>
  C2, as the specification states it, fails: a line that already ends with two
  separators is stored unchanged, so it does not carry exactly one.
\<close>

theorem addDirective_double_separator:
  "directives (addDirective ''return 404;;'' \<lparr>directives = []\<rparr>) = [''return 404;;'']
   \<and> trailing_semicolons (hd (directives (addDirective ''return 404;;'' \<lparr>directives = []\<rparr>))) = 2"
  by (simp add: addDirective_def terminate_def endsWith_def trailing_semicolons_def)

text \<open>
  C2 (amended): for every string \<open>s\<close>, the append operation adds exactly one line at the
  end of the directive store and that line ends with the separator; the line is \<open>s\<close>
  followed by the separator when \<open>s\<close> does not end with it, and \<open>s\<close> itself, with
  nothing added, when it does. The stored line ends with exactly one separator whenever
  \<open>s\<close> does not end with two of them.
\<close>

theorem addDirective_terminates_once:
  "directives (addDirective s b) = directives b @ [terminate s]
   \<and> length (directives (addDirective s b)) = Suc (length (directives b))
   \<and> endsWith (terminate s) CHR '';''
   \<and> (\<not> endsWith s CHR '';'' \<longrightarrow> terminate s = s @ '';'')
   \<and> (endsWith s CHR '';'' \<longrightarrow> terminate s = s)
   \<and> (trailing_semicolons s \<le> 1 \<longrightarrow> trailing_semicolons (terminate s) = 1)"
proof -
  have one: "trailing_semicolons s \<le> 1 \<longrightarrow> trailing_semicolons (terminate s) = 1"
  proof (cases "endsWith s CHR '';''")
    case True
    then obtain r where s: "s = r @ '';''"
      by (cases s rule: rev_cases) simp_all
    show ?thesis
      by (simp add: s terminate_def trailing_semicolons_snoc)
  next
    case False
    then show ?thesis
      using trailing_semicolons_zero [of s]
      by (simp add: terminate_def trailing_semicolons_snoc)
  qed
  show ?thesis
    using one by (simp add: addDirective_def endsWith_terminate) (simp add: terminate_def)
qed

theorem addDirective_terminates_once_witness:
  "directives (addDirective ''listen 80'' \<lparr>directives = [''root /srv;'']\<rparr>) = [''root /srv;'', ''listen 80;'']
   \<and> directives (addDirective ''listen 80;'' \<lparr>directives = []\<rparr>) = [''listen 80;'']
   \<and> trailing_semicolons (terminate ''listen 80;'') = 1
   \<and> trailing_semicolons (terminate ''listen 80'') = 1"
  using addDirective_terminates_once [of "''listen 80''" "\<lparr>directives = [''root /srv;'']\<rparr>"]
    addDirective_terminates_once [of "''listen 80;''" "\<lparr>directives = []\<rparr>"]
  by (simp add: endsWith_def trailing_semicolons_def)


section \<open>The typed option set\<close>

lemma join_snoc: "xs \<noteq> [] \<Longrightarrow> join sep (xs @ [x]) = join sep xs @ sep @ x"
  by (induction sep xs rule: join.induct) auto

lemma lookup_set_prop:
  "lookup_prop k (set_prop p t) = (if k = key_of p then Some p else lookup_prop k t)"
  by (induction t) (auto simp: lookup_prop_def)

lemma keys_set_prop:
  "map key_of (set_prop p t) = (if key_of p \<in> set (map key_of t) then map key_of t else map key_of t @ [key_of p])"
  by (induction t) auto

lemma distinct_set_prop: "distinct (map key_of t) \<Longrightarrow> distinct (map key_of (set_prop p t))"
  by (simp add: keys_set_prop)

lemma distinct_Object_assign:
  "distinct (map key_of t) \<Longrightarrow> distinct (map key_of (Object_assign t d))"
  unfolding Object_assign_def
  by (induction d arbitrary: t) (simp_all add: distinct_set_prop)

lemma find_append:
  "find P (xs @ ys) = (case find P xs of None \<Rightarrow> find P ys | Some x \<Rightarrow> Some x)"
  by (induction xs) auto

lemma lookup_Object_assign:
  "lookup_prop k (Object_assign t d) =
     (case find (\<lambda>p. key_of p = k) (rev d) of Some p \<Rightarrow> Some p | None \<Rightarrow> lookup_prop k t)"
  unfolding Object_assign_def
proof (induction d arbitrary: t)
  case Nil
  show ?case by simp
next
  case (Cons q d)
  show ?case
    by (simp add: Cons.IH lookup_set_prop find_append split: option.splits)
qed

lemma find_distinct_key:
  "distinct (map key_of s) \<Longrightarrow> find (\<lambda>p. key_of p = k) s = Some p \<longleftrightarrow> p \<in> set s \<and> key_of p = k"
  by (induction s) (auto simp: image_iff)

lemma lookup_assigned:
  assumes "distinct (map key_of d)" "p \<in> set d"
  shows "lookup_prop (key_of p) (Object_assign t d) = Some p"
proof -
  have "distinct (map key_of (rev d))" using assms(1) by (simp add: rev_map[symmetric] del: rev_map) 
  then have "find (\<lambda>q. key_of q = key_of p) (rev d) = Some p"
    using assms(2) by (simp add: find_distinct_key)
  then show ?thesis by (simp add: lookup_Object_assign)
qed

lemma lookup_same_props:
  assumes "distinct (map key_of s1)" "distinct (map key_of s2)" "set s1 = set s2"
  shows "lookup_prop k s1 = lookup_prop k s2"
proof (cases "lookup_prop k s1")
  case None
  then have "\<forall>p \<in> set s1. key_of p \<noteq> k" by (auto simp: lookup_prop_def find_None_iff)
  then have "lookup_prop k s2 = None" using assms(3) by (auto simp: lookup_prop_def find_None_iff)
  with None show ?thesis by simp
next
  case (Some p)
  then have "p \<in> set s2 \<and> key_of p = k"
    using assms(1,3) by (simp add: lookup_prop_def find_distinct_key)
  then have "lookup_prop k s2 = Some p"
    using assms(2) by (simp add: lookup_prop_def find_distinct_key)
  with Some show ?thesis by simp
qed

lemmas getters = sendfile_of_def keepalive_timeout_of_def client_max_body_size_of_def default_type_of_def
  gzip_of_def gzip_types_of_def tcp_nopush_of_def tcp_nodelay_of_def

lemma push_opt:
  "(case x of None \<Rightarrow> ls | Some v \<Rightarrow> ls @ [f v]) = ls @ (case x of None \<Rightarrow> [] | Some v \<Rightarrow> [f v])"
  by (cases x) simp_all

lemma push_opt_if:
  "(case x of None \<Rightarrow> ls | Some v \<Rightarrow> if P v then ls @ [f v] else ls)
     = ls @ (case x of None \<Rightarrow> [] | Some v \<Rightarrow> if P v then [f v] else [])"
  by (cases x) simp_all

lemma buildTypedDirectives_flat:
  "buildTypedDirectives h =
     (case sendfile_of (typedDirectives h) of Some v \<Rightarrow> [''sendfile '' @ on_off v @ '';''] | None \<Rightarrow> [])
   @ (case keepalive_timeout_of (typedDirectives h) of
        Some n \<Rightarrow> [''keepalive_timeout '' @ show_int n @ '';''] | None \<Rightarrow> [])
   @ (case client_max_body_size_of (typedDirectives h) of
        Some s \<Rightarrow> if s \<noteq> [] then [''client_max_body_size '' @ s @ '';''] else [] | None \<Rightarrow> [])
   @ (case default_type_of (typedDirectives h) of
        Some s \<Rightarrow> if s \<noteq> [] then [''default_type '' @ s @ '';''] else [] | None \<Rightarrow> [])
   @ (case gzip_of (typedDirectives h) of Some v \<Rightarrow> [''gzip '' @ on_off v @ '';''] | None \<Rightarrow> [])
   @ (case gzip_types_of (typedDirectives h) of
        Some ts \<Rightarrow> if ts \<noteq> [] then [''gzip_types '' @ join '' '' ts @ '';''] else [] | None \<Rightarrow> [])
   @ (case tcp_nopush_of (typedDirectives h) of Some v \<Rightarrow> [''tcp_nopush '' @ on_off v @ '';''] | None \<Rightarrow> [])
   @ (case tcp_nodelay_of (typedDirectives h) of Some v \<Rightarrow> [''tcp_nodelay '' @ on_off v @ '';''] | None \<Rightarrow> [])"
  unfolding buildTypedDirectives_def Let_def truthy_def
  by (simp only: push_opt push_opt_if append_Nil length_greater_0_conv) (simp only: append_assoc)

lemma build_same_props:
  assumes "distinct (map key_of (typedDirectives h1))" "distinct (map key_of (typedDirectives h2))"
    "set (typedDirectives h1) = set (typedDirectives h2)"
  shows "buildTypedDirectives h1 = buildTypedDirectives h2"
proof -
  have "lookup_prop k (typedDirectives h1) = lookup_prop k (typedDirectives h2)" for k
    using assms by (rule lookup_same_props)
  then show ?thesis
    by (simp only: buildTypedDirectives_flat getters)
qed

lemma subseq_piece: "subseq xs [a] \<Longrightarrow> subseq ys bs \<Longrightarrow> subseq (xs @ ys) (a # bs)"
  using list_emb_append_mono [of "(=)" xs "[a]" ys bs] by simp

lemma names_in_schema_order: "subseq (map directive_name (buildTypedDirectives h)) schema_order"
  unfolding buildTypedDirectives_flat schema_order_def map_append
  by (intro subseq_piece) (simp_all add: directive_name_def on_off_def split: option.splits)


lemma distinct_applyTyped:
  "distinct (map key_of (typedDirectives h)) \<Longrightarrow> distinct (map key_of (typedDirectives (applyTypedDirectives d h)))"
  by (simp add: applyTypedDirectives_def distinct_Object_assign)

lemma name_piece:
  "a \<notin> set (map directive_name (case x of None \<Rightarrow> [] | Some v \<Rightarrow> [f v]))
     \<longleftrightarrow> (\<forall>v. x = Some v \<longrightarrow> directive_name (f v) \<noteq> a)"
  by (cases x) auto

lemma name_piece_if:
  "a \<notin> set (map directive_name (case x of None \<Rightarrow> [] | Some v \<Rightarrow> if P v then [f v] else []))
     \<longleftrightarrow> (\<forall>v. x = Some v \<longrightarrow> P v \<longrightarrow> directive_name (f v) \<noteq> a)"
  by (cases x) auto

lemma notin_names_append:
  "a \<notin> set (map directive_name (xs @ ys))
     \<longleftrightarrow> a \<notin> set (map directive_name xs) \<and> a \<notin> set (map directive_name ys)"
  by auto

lemma lookup_prop_key: "lookup_prop k t = Some p \<Longrightarrow> key_of p = k"
  by (auto simp: lookup_prop_def find_Some_iff)

lemma piece_lines:
  "(case sendfile_of t of Some v \<Rightarrow> [''sendfile '' @ on_off v @ '';''] | None \<Rightarrow> [])
     = (case lookup_prop K_sendfile t of Some p \<Rightarrow> spec_option_line p | None \<Rightarrow> [])"
  "(case keepalive_timeout_of t of Some n \<Rightarrow> [''keepalive_timeout '' @ show_int n @ '';''] | None \<Rightarrow> [])
     = (case lookup_prop K_keepalive_timeout t of Some p \<Rightarrow> spec_option_line p | None \<Rightarrow> [])"
  "(case client_max_body_size_of t of
        Some s \<Rightarrow> if s \<noteq> [] then [''client_max_body_size '' @ s @ '';''] else [] | None \<Rightarrow> [])
     = (case lookup_prop K_client_max_body_size t of Some p \<Rightarrow> spec_option_line p | None \<Rightarrow> [])"
  "(case default_type_of t of
        Some s \<Rightarrow> if s \<noteq> [] then [''default_type '' @ s @ '';''] else [] | None \<Rightarrow> [])
     = (case lookup_prop K_default_type t of Some p \<Rightarrow> spec_option_line p | None \<Rightarrow> [])"
  "(case gzip_of t of Some v \<Rightarrow> [''gzip '' @ on_off v @ '';''] | None \<Rightarrow> [])
     = (case lookup_prop K_gzip t of Some p \<Rightarrow> spec_option_line p | None \<Rightarrow> [])"
  "(case gzip_types_of t of
        Some ts \<Rightarrow> if ts \<noteq> [] then [''gzip_types '' @ join '' '' ts @ '';''] else [] | None \<Rightarrow> [])
     = (case lookup_prop K_gzip_types t of Some p \<Rightarrow> spec_option_line p | None \<Rightarrow> [])"
  "(case tcp_nopush_of t of Some v \<Rightarrow> [''tcp_nopush '' @ on_off v @ '';''] | None \<Rightarrow> [])
     = (case lookup_prop K_tcp_nopush t of Some p \<Rightarrow> spec_option_line p | None \<Rightarrow> [])"
  "(case tcp_nodelay_of t of Some v \<Rightarrow> [''tcp_nodelay '' @ on_off v @ '';''] | None \<Rightarrow> [])
     = (case lookup_prop K_tcp_nodelay t of Some p \<Rightarrow> spec_option_line p | None \<Rightarrow> [])"
  by (auto simp: getters dest!: lookup_prop_key split: option.splits typed_prop.splits)

lemma buildTypedDirectives_spec: "buildTypedDirectives h = spec_typed_lines (typedDirectives h)"
  unfolding buildTypedDirectives_flat piece_lines
  by (simp add: spec_typed_lines_def schema_keys_def)

lemma all_keys: "k \<in> set schema_keys"
  by (cases k) (simp_all add: schema_keys_def)

lemma set_spec_typed_lines:
  assumes "distinct (map key_of t)"
  shows "set (spec_typed_lines t) = (\<Union>p \<in> set t. set (spec_option_line p))"
proof
  show "set (spec_typed_lines t) \<subseteq> (\<Union>p \<in> set t. set (spec_option_line p))"
  proof
    fix l
    assume "l \<in> set (spec_typed_lines t)"
    then obtain k p where "lookup_prop k t = Some p" and "l \<in> set (spec_option_line p)"
      by (auto simp: spec_typed_lines_def split: option.splits) (metis)
    moreover from this have "p \<in> set t"
      using assms by (simp add: lookup_prop_def find_distinct_key)
    ultimately show "l \<in> (\<Union>p \<in> set t. set (spec_option_line p))"
      by blast
  qed
next
  show "(\<Union>p \<in> set t. set (spec_option_line p)) \<subseteq> set (spec_typed_lines t)"
  proof
    fix l
    assume "l \<in> (\<Union>p \<in> set t. set (spec_option_line p))"
    then obtain p where p: "p \<in> set t" and l: "l \<in> set (spec_option_line p)"
      by blast
    have "lookup_prop (key_of p) t = Some p"
      using assms p by (simp add: lookup_prop_def find_distinct_key)
    then show "l \<in> set (spec_typed_lines t)"
      using l all_keys [of "key_of p"] by (force simp: spec_typed_lines_def)
  qed
qed


text \<open>
  C3: two typed-option records merged into an HTTP block in either order, with the same
  final set of properties (keys with their values), render the same typed-option lines.
  The lines are exactly those of the options present in the final set, each present
  option giving its line, in the schema order (sendfile, keepalive_timeout,
  client_max_body_size, default_type, gzip, gzip_types, tcp_nopush, tcp_nodelay) whatever
  the insertion order of the properties; every option of the record merged last has its
  line in the result.
\<close>

theorem typed_options_order_independent:
  assumes "distinct (map key_of (typedDirectives h))"
    and "set (typedDirectives (applyTypedDirectives b (applyTypedDirectives a h)))
         = set (typedDirectives (applyTypedDirectives a (applyTypedDirectives b h)))"
  shows "buildTypedDirectives (applyTypedDirectives b (applyTypedDirectives a h))
         = buildTypedDirectives (applyTypedDirectives a (applyTypedDirectives b h))
       \<and> buildTypedDirectives (applyTypedDirectives b (applyTypedDirectives a h))
         = spec_typed_lines (typedDirectives (applyTypedDirectives b (applyTypedDirectives a h)))
       \<and> set (buildTypedDirectives (applyTypedDirectives b (applyTypedDirectives a h)))
         = (\<Union>p \<in> set (typedDirectives (applyTypedDirectives b (applyTypedDirectives a h))).
              set (spec_option_line p))
       \<and> (distinct (map key_of b) \<longrightarrow>
            (\<forall>p \<in> set b. set (spec_option_line p)
               \<subseteq> set (buildTypedDirectives (applyTypedDirectives b (applyTypedDirectives a h)))))
       \<and> subseq (map directive_name (buildTypedDirectives (applyTypedDirectives b (applyTypedDirectives a h))))
            schema_order"
proof -
  let ?ba = "applyTypedDirectives b (applyTypedDirectives a h)"
  let ?ab = "applyTypedDirectives a (applyTypedDirectives b h)"
  have dba: "distinct (map key_of (typedDirectives ?ba))"
    and dab: "distinct (map key_of (typedDirectives ?ab))"
    using assms(1) by (simp_all add: distinct_applyTyped)
  have eq: "buildTypedDirectives ?ba = buildTypedDirectives ?ab"
    using dba dab assms(2) by (rule build_same_props)
  have lines: "set (buildTypedDirectives ?ba) = (\<Union>p \<in> set (typedDirectives ?ba). set (spec_option_line p))"
    using dba by (simp add: buildTypedDirectives_spec set_spec_typed_lines)
  have merged: "set (spec_option_line p) \<subseteq> set (buildTypedDirectives ?ba)"
    if "distinct (map key_of b)" and "p \<in> set b" for p
  proof -
    have "lookup_prop (key_of p) (typedDirectives ?ba) = Some p"
      using lookup_assigned [OF that] by (simp add: applyTypedDirectives_def)
    then have "p \<in> set (typedDirectives ?ba)"
      using dba by (simp add: lookup_prop_def find_distinct_key)
    then show ?thesis
      unfolding lines by blast
  qed
  show ?thesis
    using eq lines merged names_in_schema_order buildTypedDirectives_spec by blast
qed

theorem typed_options_order_independent_witness:
  "typedDirectives (applyTypedDirectives [Keepalive_timeout (Some 65)]
       (applyTypedDirectives [Tcp_nodelay (Some True), Sendfile (Some True)] HttpBlock_new))
     = [Tcp_nodelay (Some True), Sendfile (Some True), Keepalive_timeout (Some 65)]
   \<and> typedDirectives (applyTypedDirectives [Tcp_nodelay (Some True), Sendfile (Some True)]
       (applyTypedDirectives [Keepalive_timeout (Some 65)] HttpBlock_new))
     = [Keepalive_timeout (Some 65), Tcp_nodelay (Some True), Sendfile (Some True)]
   \<and> buildTypedDirectives (applyTypedDirectives [Keepalive_timeout (Some 65)]
       (applyTypedDirectives [Tcp_nodelay (Some True), Sendfile (Some True)] HttpBlock_new))
     = buildTypedDirectives (applyTypedDirectives [Tcp_nodelay (Some True), Sendfile (Some True)]
       (applyTypedDirectives [Keepalive_timeout (Some 65)] HttpBlock_new))
   \<and> buildTypedDirectives (applyTypedDirectives [Keepalive_timeout (Some 65)]
       (applyTypedDirectives [Tcp_nodelay (Some True), Sendfile (Some True)] HttpBlock_new))
     = [''sendfile on;'', ''keepalive_timeout 65;'', ''tcp_nodelay on;'']"
proof -
  let ?a = "[Tcp_nodelay (Some True), Sendfile (Some True)]"
  let ?b = "[Keepalive_timeout (Some 65)]"
  have d: "distinct (map key_of (typedDirectives HttpBlock_new))"
    by (simp add: HttpBlock_new_def)
  have s: "set (typedDirectives (applyTypedDirectives ?b (applyTypedDirectives ?a HttpBlock_new)))
       = set (typedDirectives (applyTypedDirectives ?a (applyTypedDirectives ?b HttpBlock_new)))"
    by (auto simp: HttpBlock_new_def applyTypedDirectives_def Object_assign_def)
  have t: "typedDirectives (applyTypedDirectives ?b (applyTypedDirectives ?a HttpBlock_new))
       = [Tcp_nodelay (Some True), Sendfile (Some True), Keepalive_timeout (Some 65)]"
    "typedDirectives (applyTypedDirectives ?a (applyTypedDirectives ?b HttpBlock_new))
       = [Keepalive_timeout (Some 65), Tcp_nodelay (Some True), Sendfile (Some True)]"
    by (simp_all add: HttpBlock_new_def applyTypedDirectives_def Object_assign_def)
  have e: "spec_typed_lines [Tcp_nodelay (Some True), Sendfile (Some True), Keepalive_timeout (Some 65)]
       = [''sendfile on;'', ''keepalive_timeout 65;'', ''tcp_nodelay on;'']"
    by code_simp
  from typed_options_order_independent [OF d s]
  have "buildTypedDirectives (applyTypedDirectives ?b (applyTypedDirectives ?a HttpBlock_new))
         = buildTypedDirectives (applyTypedDirectives ?a (applyTypedDirectives ?b HttpBlock_new))"
    and "buildTypedDirectives (applyTypedDirectives ?b (applyTypedDirectives ?a HttpBlock_new))
         = spec_typed_lines (typedDirectives (applyTypedDirectives ?b (applyTypedDirectives ?a HttpBlock_new)))"
    by blast+
  then show ?thesis
    by (simp only: t e simp_thms)
qed

text \<open>
  C9: after merging a record in which client_max_body_size is the empty string, the
  property is present in the option set and no client_max_body_size line is rendered;
  the same for gzip_types and the empty list.
\<close>

theorem empty_typed_value_renders_nothing:
  assumes "distinct (map key_of d)"
  shows "(Client_max_body_size (Some []) \<in> set d \<longrightarrow>
           lookup_prop K_client_max_body_size (typedDirectives (applyTypedDirectives d h))
             = Some (Client_max_body_size (Some []))
         \<and> ''client_max_body_size'' \<notin> set (map directive_name (buildTypedDirectives (applyTypedDirectives d h))))
       \<and> (Gzip_types (Some []) \<in> set d \<longrightarrow>
           lookup_prop K_gzip_types (typedDirectives (applyTypedDirectives d h))
             = Some (Gzip_types (Some []))
         \<and> ''gzip_types'' \<notin> set (map directive_name (buildTypedDirectives (applyTypedDirectives d h))))"
proof (intro conjI impI)
  assume m: "Client_max_body_size (Some []) \<in> set d"
  show l: "lookup_prop K_client_max_body_size (typedDirectives (applyTypedDirectives d h))
             = Some (Client_max_body_size (Some []))"
    using lookup_assigned [OF assms m] by (simp add: applyTypedDirectives_def)
  show "''client_max_body_size'' \<notin> set (map directive_name (buildTypedDirectives (applyTypedDirectives d h)))"
    unfolding buildTypedDirectives_flat
    by (simp add: notin_names_append name_piece name_piece_if client_max_body_size_of_def l
        directive_name_def del: set_map map_append)
next
  assume m: "Gzip_types (Some []) \<in> set d"
  show l: "lookup_prop K_gzip_types (typedDirectives (applyTypedDirectives d h)) = Some (Gzip_types (Some []))"
    using lookup_assigned [OF assms m] by (simp add: applyTypedDirectives_def)
  show "''gzip_types'' \<notin> set (map directive_name (buildTypedDirectives (applyTypedDirectives d h)))"
    unfolding buildTypedDirectives_flat
    by (simp add: notin_names_append name_piece name_piece_if gzip_types_of_def l
        directive_name_def del: set_map map_append)
qed


theorem empty_typed_value_renders_nothing_witness:
  "lookup_prop K_client_max_body_size (typedDirectives
       (applyTypedDirectives [Client_max_body_size (Some []), Gzip_types (Some [])]
         (applyTypedDirectives [Client_max_body_size (Some ''10m''), Gzip (Some True)] HttpBlock_new)))
     = Some (Client_max_body_size (Some []))
   \<and> ''client_max_body_size'' \<notin> set (map directive_name (buildTypedDirectives
       (applyTypedDirectives [Client_max_body_size (Some []), Gzip_types (Some [])]
         (applyTypedDirectives [Client_max_body_size (Some ''10m''), Gzip (Some True)] HttpBlock_new))))
   \<and> ''gzip_types'' \<notin> set (map directive_name (buildTypedDirectives
       (applyTypedDirectives [Client_max_body_size (Some []), Gzip_types (Some [])]
         (applyTypedDirectives [Client_max_body_size (Some ''10m''), Gzip (Some True)] HttpBlock_new))))
   \<and> buildTypedDirectives
         (applyTypedDirectives [Client_max_body_size (Some ''10m''), Gzip (Some True)] HttpBlock_new)
       = [''client_max_body_size 10m;'', ''gzip on;'']"
proof -
  have d: "distinct (map key_of [Client_max_body_size (Some []), Gzip_types (Some [])])"
    by simp
  have e: "buildTypedDirectives
         (applyTypedDirectives [Client_max_body_size (Some ''10m''), Gzip (Some True)] HttpBlock_new)
       = [''client_max_body_size 10m;'', ''gzip on;'']"
    by code_simp
  show ?thesis
    using empty_typed_value_renders_nothing [OF d,
        of "applyTypedDirectives [Client_max_body_size (Some ''10m''), Gzip (Some True)] HttpBlock_new"] e
    by simp
qed

text \<open>
  C10: merging a record in which a property is present and holds undefined clears the
  option: no line of that name is rendered afterwards. In particular sendfile merged as
  true renders its line, and a later merge of sendfile as undefined removes it.
\<close>

theorem explicit_undefined_clears:
  assumes "distinct (map key_of d)" and "p \<in> set d" and "holds_undefined p"
  shows "key_name (key_of p) \<notin> set (map directive_name (buildTypedDirectives (applyTypedDirectives d h)))
       \<and> ''sendfile on;'' \<in> set (buildTypedDirectives (applyTypedDirectives [Sendfile (Some True)] h))
       \<and> ''sendfile'' \<notin> set (map directive_name (buildTypedDirectives
             (applyTypedDirectives [Sendfile None] (applyTypedDirectives [Sendfile (Some True)] h))))"
proof (intro conjI)
  have l: "lookup_prop (key_of p) (typedDirectives (applyTypedDirectives d h)) = Some p"
    using lookup_assigned [OF assms(1,2)] by (simp add: applyTypedDirectives_def)
  show "key_name (key_of p) \<notin> set (map directive_name (buildTypedDirectives (applyTypedDirectives d h)))"
    using l assms(3) unfolding buildTypedDirectives_flat
    by (cases p)
       (simp_all add: notin_names_append name_piece name_piece_if getters directive_name_def
          del: set_map map_append)
next
  have "sendfile_of (typedDirectives (applyTypedDirectives [Sendfile (Some True)] h)) = Some True"
    by (simp add: sendfile_of_def applyTypedDirectives_def Object_assign_def lookup_set_prop)
  then show "''sendfile on;'' \<in> set (buildTypedDirectives (applyTypedDirectives [Sendfile (Some True)] h))"
    by (simp add: buildTypedDirectives_flat on_off_def)
next
  have "sendfile_of (typedDirectives
      (applyTypedDirectives [Sendfile None] (applyTypedDirectives [Sendfile (Some True)] h))) = None"
    by (simp add: sendfile_of_def applyTypedDirectives_def Object_assign_def lookup_set_prop)
  then show "''sendfile'' \<notin> set (map directive_name (buildTypedDirectives
             (applyTypedDirectives [Sendfile None] (applyTypedDirectives [Sendfile (Some True)] h))))"
    unfolding buildTypedDirectives_flat
    by (simp add: notin_names_append name_piece name_piece_if directive_name_def
          del: set_map map_append)
qed

theorem explicit_undefined_clears_witness:
  "buildTypedDirectives (applyTypedDirectives [Sendfile (Some True)] HttpBlock_new) = [''sendfile on;'']
   \<and> buildTypedDirectives (applyTypedDirectives [Sendfile None, Gzip (Some True)]
         (applyTypedDirectives [Sendfile (Some True)] HttpBlock_new)) = [''gzip on;'']
   \<and> ''sendfile'' \<notin> set (map directive_name (buildTypedDirectives
         (applyTypedDirectives [Sendfile None, Gzip (Some True)]
           (applyTypedDirectives [Sendfile (Some True)] HttpBlock_new))))"
proof -
  have d: "distinct (map key_of [Sendfile None, Gzip (Some True)])"
    by simp
  have m: "Sendfile None \<in> set [Sendfile None, Gzip (Some True)]"
    by simp
  have u: "holds_undefined (Sendfile None)"
    by simp
  have e: "buildTypedDirectives (applyTypedDirectives [Sendfile (Some True)] HttpBlock_new) = [''sendfile on;'']
    \<and> buildTypedDirectives (applyTypedDirectives [Sendfile None, Gzip (Some True)]
         (applyTypedDirectives [Sendfile (Some True)] HttpBlock_new)) = [''gzip on;'']"
    by code_simp
  show ?thesis
    using explicit_undefined_clears [OF d m u, of "applyTypedDirectives [Sendfile (Some True)] HttpBlock_new"] e
    by simp
qed


section \<open>Pool members\<close>

lemma join_push_opt:
  "ps \<noteq> [] \<Longrightarrow> join sep (case x of None \<Rightarrow> ps | Some v \<Rightarrow> ps @ [f v])
     = join sep ps @ (case x of None \<Rightarrow> [] | Some v \<Rightarrow> sep @ f v)"
  by (cases x) (simp_all add: join_snoc)

lemma join_push_opt_if:
  "ps \<noteq> [] \<Longrightarrow> join sep (case x of None \<Rightarrow> ps | Some v \<Rightarrow> if P v then ps @ [f v] else ps)
     = join sep ps @ (case x of None \<Rightarrow> [] | Some v \<Rightarrow> if P v then sep @ f v else [])"
  by (cases x) (simp_all add: join_snoc)

lemma join_push_if:
  "ps \<noteq> [] \<Longrightarrow> join sep (if c then ps @ [y] else ps) = join sep ps @ (if c then sep @ y else [])"
  by (simp add: join_snoc)

lemma push_opt_nonempty: "ps \<noteq> [] \<Longrightarrow> (case x of None \<Rightarrow> ps | Some v \<Rightarrow> ps @ [f v]) \<noteq> []"
  by (cases x) simp_all

lemma push_opt_if_nonempty:
  "ps \<noteq> [] \<Longrightarrow> (case x of None \<Rightarrow> ps | Some v \<Rightarrow> if P v then ps @ [f v] else ps) \<noteq> []"
  by (cases x) simp_all

lemma server_directive:
  "directives (UpstreamBlock_server address options u) = directives u @ [terminate (spec_server_line address options)]"
  unfolding UpstreamBlock_server_def Let_def spec_server_line_def addDirective_def truthy_def
  by (simp add: join_push_opt join_push_opt_if join_push_if push_opt_nonempty push_opt_if_nonempty)
     (simp cong: option.case_cong if_cong)

text \<open>
  C7: every pool-member addition appends exactly one directive to the store, so a
  sequence of additions leaves the directives in call order; the directive is the word
  server, the address, and then the modifiers weight, max_fails, fail_timeout, backup,
  down in this order, each one absent when it was not supplied, closed by the separator.
\<close>

theorem pool_members_in_call_order:
  "directives (UpstreamBlock_server address options u) = directives u @ [terminate (spec_server_line address options)]
   \<and> directives (foldl (\<lambda>u (a, opts). UpstreamBlock_server a opts u) u calls)
       = directives u @ map (\<lambda>(a, opts). terminate (spec_server_line a opts)) calls"
proof -
  have "directives (foldl (\<lambda>u (a, opts). UpstreamBlock_server a opts u) u calls)
       = directives u @ map (\<lambda>(a, opts). terminate (spec_server_line a opts)) calls"
    by (induction calls arbitrary: u) (auto simp: server_directive)
  then show ?thesis
    by (simp add: server_directive)
qed


theorem pool_members_in_call_order_witness:
  "directives (foldl (\<lambda>u (a, opts). UpstreamBlock_server a opts u) \<lparr>directives = [], name = ''pool''\<rparr>
      [(''10.0.0.1:80'', \<lparr>weight = Some 3, maxFails = Some 2, failTimeout = Some ''30s'', backup = None, down = None\<rparr>),
       (''10.0.0.2:80'', \<lparr>weight = None, maxFails = None, failTimeout = None, backup = Some True, down = None\<rparr>),
       (''10.0.0.3:80'', \<lparr>weight = None, maxFails = None, failTimeout = None, backup = None, down = Some True\<rparr>)])
   = [''server 10.0.0.1:80 weight=3 max_fails=2 fail_timeout=30s;'', ''server 10.0.0.2:80 backup;'', ''server 10.0.0.3:80 down;'']"
proof -
  have t: "terminate (spec_server_line ''10.0.0.1:80'' \<lparr>weight = Some 3, maxFails = Some 2, failTimeout = Some ''30s'', backup = None, down = None\<rparr>)
       = ''server 10.0.0.1:80 weight=3 max_fails=2 fail_timeout=30s;''"
     "terminate (spec_server_line ''10.0.0.2:80'' \<lparr>weight = None, maxFails = None, failTimeout = None, backup = Some True, down = None\<rparr>)
       = ''server 10.0.0.2:80 backup;''"
     "terminate (spec_server_line ''10.0.0.3:80'' \<lparr>weight = None, maxFails = None, failTimeout = None, backup = None, down = Some True\<rparr>)
       = ''server 10.0.0.3:80 down;''"
    by code_simp+
  show ?thesis
    using pool_members_in_call_order [of "''x''" "\<lparr>weight = None, maxFails = None, failTimeout = None, backup = None, down = None\<rparr>"
       "\<lparr>directives = [], name = ''pool''\<rparr>"
       "[(''10.0.0.1:80'', \<lparr>weight = Some 3, maxFails = Some 2, failTimeout = Some ''30s'', backup = None, down = None\<rparr>),
       (''10.0.0.2:80'', \<lparr>weight = None, maxFails = None, failTimeout = None, backup = Some True, down = None\<rparr>),
       (''10.0.0.3:80'', \<lparr>weight = None, maxFails = None, failTimeout = None, backup = None, down = Some True\<rparr>)]"]
    by (simp add: t)
qed


section \<open>The CORS helper\<close>

lemma digit_char_not_semicolon: "0 \<le> d \<Longrightarrow> d < 10 \<Longrightarrow> digit_char d \<noteq> CHR '';''"
proof -
  assume "0 \<le> d" "d < 10"
  then have "d \<in> {0, 1, 2, 3, 4, 5, 6, 7, 8, 9}"
    by simp arith
  then show ?thesis
    by (auto simp: digit_char_def)
qed

lemma show_digits_last:
  "0 \<le> n \<Longrightarrow> show_digits n \<noteq> [] \<and> last (show_digits n) = digit_char (n mod 10)"
  by (subst (1 2) show_digits.simps) simp

lemma show_int_last: "show_int n \<noteq> [] \<and> last (show_int n) \<noteq> CHR '';''"
proof (cases "n < 0")
  case True
  then have "0 \<le> - n" by simp
  from show_digits_last [OF this] show ?thesis
    using True by (simp add: show_int_def digit_char_not_semicolon)
next
  case False
  then have "0 \<le> n" by simp
  from show_digits_last [OF this] show ?thesis
    using False by (simp add: show_int_def digit_char_not_semicolon)
qed

lemma terminate_number: "terminate (s @ show_int n) = s @ show_int n @ '';''"
  using show_int_last [of n] by (simp add: terminate_def endsWith_iff)

text \<open>
  C6, as the specification states it, fails: the call with default options stores four
  header directives, not five.
\<close>

theorem cors_default_is_four_lines:
  "directives (enableCors cors_no_options (LocationBlock_new ''/'' False))
     = [''add_header Access-Control-Allow-Origin *;'',
        ''add_header Access-Control-Allow-Methods GET POST OPTIONS;'',
        ''add_header Access-Control-Allow-Headers DNT X-CustomHeader Keep-Alive User-Agent;'',
        ''add_header Access-Control-Max-Age 1728000;'']
   \<and> length (directives (enableCors cors_no_options (LocationBlock_new ''/'' False))) \<noteq> 5"
  by code_simp

text \<open>
  C6 (amended): the call with default options appends exactly four header directives
  (origin, methods, headers, max-age; no credentials line); for every options record the
  appended directives are allow-origin, allow-methods, allow-headers, the
  allow-credentials line exactly when credentials is true, then max-age, in this order.
\<close>

theorem cors_header_order:
  "directives (enableCors cors_no_options l)
     = directives l @
       [''add_header Access-Control-Allow-Origin *;'',
        ''add_header Access-Control-Allow-Methods GET POST OPTIONS;'',
        ''add_header Access-Control-Allow-Headers DNT X-CustomHeader Keep-Alive User-Agent;'',
        ''add_header Access-Control-Max-Age 1728000;'']
   \<and> directives (enableCors options l)
     = directives l @
       [terminate (''add_header Access-Control-Allow-Origin '' @
          join '' '' (case origins options of None \<Rightarrow> [''*''] | Some x \<Rightarrow> x)),
        terminate (''add_header Access-Control-Allow-Methods '' @
          join '' '' (case methods options of None \<Rightarrow> [''GET'', ''POST'', ''OPTIONS''] | Some x \<Rightarrow> x)),
        terminate (''add_header Access-Control-Allow-Headers '' @
          join '' '' (case headers options of
                        None \<Rightarrow> [''DNT'', ''X-CustomHeader'', ''Keep-Alive'', ''User-Agent'']
                      | Some x \<Rightarrow> x))]
       @ (if credentials options = Some True then [''add_header Access-Control-Allow-Credentials true;''] else [])
       @ [''add_header Access-Control-Max-Age '' @
            show_int (case maxAge options of None \<Rightarrow> 1728000 | Some x \<Rightarrow> x) @ '';'']"
proof -
  have n: "show_int 1728000 = ''1728000''"
    by code_simp
  have t: "terminate ''add_header Access-Control-Allow-Credentials true'' = ''add_header Access-Control-Allow-Credentials true;''"
    by (simp add: terminate_def endsWith_def)
  have g: "directives (enableCors options l)
     = directives l @
       [terminate (''add_header Access-Control-Allow-Origin '' @
          join '' '' (case origins options of None \<Rightarrow> [''*''] | Some x \<Rightarrow> x)),
        terminate (''add_header Access-Control-Allow-Methods '' @
          join '' '' (case methods options of None \<Rightarrow> [''GET'', ''POST'', ''OPTIONS''] | Some x \<Rightarrow> x)),
        terminate (''add_header Access-Control-Allow-Headers '' @
          join '' '' (case headers options of
                        None \<Rightarrow> [''DNT'', ''X-CustomHeader'', ''Keep-Alive'', ''User-Agent'']
                      | Some x \<Rightarrow> x))]
       @ (if credentials options = Some True then [''add_header Access-Control-Allow-Credentials true;''] else [])
       @ [''add_header Access-Control-Max-Age '' @
            show_int (case maxAge options of None \<Rightarrow> 1728000 | Some x \<Rightarrow> x) @ '';'']" for options
    using terminate_number [of "''add_header Access-Control-Max-Age ''"] t
    by (cases "credentials options") (simp_all add: enableCors_def Let_def addHeader_def addDirective_def)
  show ?thesis
    by (rule conjI, subst g) (simp_all add: g cors_no_options_def n terminate_def endsWith_def)
qed

theorem cors_header_order_witness:
  "directives (enableCors \<lparr>origins = Some [''https://trusted-site.com''], methods = Some [''GET'', ''POST'', ''OPTIONS''],
        headers = Some [''Authorization'', ''Content-Type''], credentials = Some True, maxAge = Some 3600\<rparr>
      (LocationBlock_new ''/api/public'' False))
   = [''add_header Access-Control-Allow-Origin https://trusted-site.com;'',
      ''add_header Access-Control-Allow-Methods GET POST OPTIONS;'',
      ''add_header Access-Control-Allow-Headers Authorization Content-Type;'',
      ''add_header Access-Control-Allow-Credentials true;'',
      ''add_header Access-Control-Max-Age 3600;'']"
proof -
  have n: "show_int 3600 = ''3600''"
    by code_simp
  show ?thesis
    using cors_header_order [of "LocationBlock_new ''/api/public'' False"
        "\<lparr>origins = Some [''https://trusted-site.com''], methods = Some [''GET'', ''POST'', ''OPTIONS''],
        headers = Some [''Authorization'', ''Content-Type''], credentials = Some True, maxAge = Some 3600\<rparr>"]
    by (simp add: LocationBlock_new_def n terminate_def endsWith_def)
qed

section \<open>Blocks with an empty body\<close>

text \<open>
  C4: the code at blocks without directives and without children. Only the HTTP block
  has the minimal form; the events, server, location, upstream and map blocks render the
  opening delimiter, an empty line and the closing delimiter.
\<close>

theorem empty_blocks_render:
  "EventsBlock_build \<lparr>directives = []\<rparr> = ''events {\<newline>\<newline>}''
   \<and> ServerBlock_build [] ServerBlock_new = ''server {\<newline>\<newline>}''
   \<and> LocationBlock_build [] (LocationBlock_new ''/'' False) = ''location  / {\<newline>\<newline>}''
   \<and> UpstreamBlock_build [] \<lparr>directives = [], name = ''pool''\<rparr> = ''upstream pool {\<newline>\<newline>}''
   \<and> MapBlock_build [] \<lparr>directives = [], variable = ''$a'', outputVar = ''$b'', items = []\<rparr>
       = ''map $a $b {\<newline>\<newline>}''
   \<and> HttpBlock_build [] HttpBlock_new = ''http {}''"
  by code_simp


section \<open>The document roots\<close>

lemma one_trailing_newline_snoc:
  "one_trailing_newline (s @ NL) \<longleftrightarrow> s = [] \<or> last s \<noteq> CHR 0x0A"
  by (cases s rule: rev_cases) (simp_all add: one_trailing_newline_def)

lemma last_join:
  "xs \<noteq> [] \<Longrightarrow> last xs \<noteq> [] \<Longrightarrow> join sep xs \<noteq> [] \<and> last (join sep xs) = last (last xs)"
  by (induction sep xs rule: join.induct) auto

lemma last_EventsBlock_build: "EventsBlock_build e \<noteq> [] \<and> last (EventsBlock_build e) = CHR ''}''"
  by (simp add: EventsBlock_build_def)

lemma last_ServerBlock_build: "ServerBlock_build indent s \<noteq> [] \<and> last (ServerBlock_build indent s) = CHR ''}''"
  by (simp add: ServerBlock_build_def Let_def)

lemma last_HttpBlock_build: "HttpBlock_build indent h \<noteq> [] \<and> last (HttpBlock_build indent h) = CHR ''}''"
  by (simp add: HttpBlock_build_def Let_def)

lemma push_directive_last:
  assumes "terminated_field d" and "ps = [] \<or> (last ps \<noteq> [] \<and> last (last ps) \<noteq> CHR 0x0A)"
  shows "push_directive d ps = [] \<or> (last (push_directive d ps) \<noteq> [] \<and> last (last (push_directive d ps)) \<noteq> CHR 0x0A)"
  using assms
  by (cases d) (auto simp: push_directive_def terminated_field_def truthy_def endsWith_iff)

lemma NginxConfig_build_newline:
  assumes "directive_fields_terminated c"
  shows "one_trailing_newline (NginxConfig_build c)"
proof -
  define p3 where "p3 = push_directive (pidDirective c)
      (push_directive (workerProcessesDirective c) (push_directive (userDirective c) []))"
  define p4 where "p4 = (case eventsBlock c of Some e \<Rightarrow> p3 @ [EventsBlock_build e] | None \<Rightarrow> p3)"
  define p5 where "p5 = (case httpBlock c of Some h \<Rightarrow> p4 @ [HttpBlock_build [] h] | None \<Rightarrow> p4)"
  have b: "NginxConfig_build c = join (NL @ NL) p5 @ NL"
    unfolding NginxConfig_build_def Let_def p5_def p4_def p3_def by (rule refl)
  have 3: "p3 = [] \<or> (last p3 \<noteq> [] \<and> last (last p3) \<noteq> CHR 0x0A)"
    unfolding p3_def using assms
    by (intro push_directive_last) (simp_all add: directive_fields_terminated_def)
  have 4: "p4 = [] \<or> (last p4 \<noteq> [] \<and> last (last p4) \<noteq> CHR 0x0A)"
    using 3 last_EventsBlock_build by (cases "eventsBlock c") (simp_all add: p4_def)
  have 5: "p5 = [] \<or> (last p5 \<noteq> [] \<and> last (last p5) \<noteq> CHR 0x0A)"
    using 4 last_HttpBlock_build by (cases "httpBlock c") (simp_all add: p5_def)
  show ?thesis
  proof (cases "p5 = []")
    case True
    then show ?thesis
      by (simp add: b one_trailing_newline_def)
  next
    case False
    with 5 have "last p5 \<noteq> [] \<and> last (last p5) \<noteq> CHR 0x0A"
      by simp
    with False show ?thesis
      using last_join [of p5 "NL @ NL"] by (simp add: b one_trailing_newline_snoc)
  qed
qed

lemma SiteConfig_build_newline: "one_trailing_newline (SiteConfig_build sc)"
proof -
  define ds where "ds = join NL (map (\<lambda>d. if endsWith d CHR '';'' then d else d @ '';'') (site_directives sc))"
  define ss where "ss = join NL (map (ServerBlock_build []) (site_servers sc))"
  have b: "SiteConfig_build sc = join NL (filter truthy [ds, ss]) @ NL"
    by (simp add: SiteConfig_build_def ds_def ss_def)
  have d: "ds = [] \<or> last ds \<noteq> CHR 0x0A"
  proof (cases "site_directives sc = []")
    case True
    then show ?thesis by (simp add: ds_def)
  next
    case False
    let ?xs = "map (\<lambda>d. if endsWith d CHR '';'' then d else d @ '';'') (site_directives sc)"
    have "?xs \<noteq> []" using False by simp
    moreover have "last ?xs \<noteq> [] \<and> last (last ?xs) = CHR '';''"
      using False by (auto simp: last_map endsWith_iff)
    ultimately show ?thesis
      unfolding ds_def using last_join [of ?xs NL] by simp
  qed
  have s: "ss = [] \<or> last ss \<noteq> CHR 0x0A"
  proof (cases "site_servers sc = []")
    case True
    then show ?thesis by (simp add: ss_def)
  next
    case False
    let ?xs = "map (ServerBlock_build []) (site_servers sc)"
    have "?xs \<noteq> []" using False by simp
    moreover have "last ?xs \<noteq> [] \<and> last (last ?xs) = CHR ''}''"
      using False last_ServerBlock_build by (simp add: last_map)
    ultimately show ?thesis
      unfolding ss_def using last_join [of ?xs NL] by simp
  qed
  show ?thesis
    unfolding b one_trailing_newline_snoc
    using d s last_join [of "[ds, ss]" NL] last_join [of "[ds]" NL] last_join [of "[ss]" NL]
    by (auto simp: truthy_def)
qed

text \<open>The empty document has the property and every operation of the document keeps it.\<close>

lemma new_config_terminated: "directive_fields_terminated NginxConfig_new"
  by (simp add: directive_fields_terminated_def NginxConfig_new_def terminated_field_def)

lemma setters_keep_terminated:
  assumes "directive_fields_terminated c"
  shows "directive_fields_terminated (user u c)"
    and "directive_fields_terminated (workerProcesses v c)"
    and "directive_fields_terminated (pid p c)"
    and "directive_fields_terminated (events c)"
    and "directive_fields_terminated (http c)"
    and "directive_fields_terminated (c\<lparr>eventsBlock := e\<rparr>)"
    and "directive_fields_terminated (c\<lparr>httpBlock := h\<rparr>)"
  using assms
  by (auto simp: directive_fields_terminated_def terminated_field_def user_def workerProcesses_def
      pid_def events_def http_def endsWith_def split: option.splits)

text \<open>
  C8: the text of the full document, in every state whose directive fields are as their
  setters write them, and the text of the server-only document, in every state, end with
  exactly one newline; the empty documents render as a single newline.
\<close>

theorem documents_end_with_one_newline:
  "(directive_fields_terminated c \<longrightarrow> one_trailing_newline (NginxConfig_build c))
   \<and> one_trailing_newline (SiteConfig_build sc)
   \<and> NginxConfig_build NginxConfig_new = NL
   \<and> SiteConfig_build SiteConfig_new = NL"
proof -
  have "NginxConfig_build NginxConfig_new = NL" "SiteConfig_build SiteConfig_new = NL"
    by code_simp+
  then show ?thesis
    using NginxConfig_build_newline SiteConfig_build_newline by blast
qed


theorem documents_end_with_one_newline_witness:
  "directive_fields_terminated (user ''nginx'' (events NginxConfig_new))
   \<and> one_trailing_newline (NginxConfig_build (user ''nginx'' (events NginxConfig_new)))
   \<and> NginxConfig_build (user ''nginx'' (events NginxConfig_new)) = ''user nginx;\<newline>\<newline>events {\<newline>\<newline>}\<newline>''
   \<and> one_trailing_newline (SiteConfig_build (site_addServer (Num 80) False (site_include ''mime.types'' SiteConfig_new)))
   \<and> SiteConfig_build (site_addServer (Num 80) False (site_include ''mime.types'' SiteConfig_new))
       = ''include mime.types;\<newline>server {\<newline>    listen 80;\<newline>}\<newline>''"
proof -
  have t: "directive_fields_terminated (user ''nginx'' (events NginxConfig_new))"
    by (simp add: directive_fields_terminated_def terminated_field_def user_def events_def
        NginxConfig_new_def endsWith_def)
  have e: "NginxConfig_build (user ''nginx'' (events NginxConfig_new)) = ''user nginx;\<newline>\<newline>events {\<newline>\<newline>}\<newline>''"
    "SiteConfig_build (site_addServer (Num 80) False (site_include ''mime.types'' SiteConfig_new))
       = ''include mime.types;\<newline>server {\<newline>    listen 80;\<newline>}\<newline>''"
    by code_simp+
  show ?thesis
    using documents_end_with_one_newline [of "user ''nginx'' (events NginxConfig_new)"
        "site_addServer (Num 80) False (site_include ''mime.types'' SiteConfig_new)"] t e
    by simp
qed


section \<open>The content groups of the HTTP block\<close>

lemma truthy_trim: "truthy (trim s) \<longleftrightarrow> (\<exists>c \<in> set s. \<not> is_space c)"
proof -
  have "(\<forall>x \<in> set (dropWhile is_space s). is_space x) \<longleftrightarrow> (\<forall>x \<in> set s. is_space x)"
  proof
    assume a: "\<forall>x \<in> set (dropWhile is_space s). is_space x"
    have "dropWhile is_space s = []"
    proof (rule ccontr)
      assume n: "dropWhile is_space s \<noteq> []"
      then have "\<not> is_space (hd (dropWhile is_space s))"
        by (rule hd_dropWhile)
      moreover have "hd (dropWhile is_space s) \<in> set (dropWhile is_space s)"
        using n by simp
      ultimately show False
        using a by blast
    qed
    then show "\<forall>x \<in> set s. is_space x"
      by (simp add: dropWhile_eq_Nil_conv)
  next
    assume "\<forall>x \<in> set s. is_space x"
    then show "\<forall>x \<in> set (dropWhile is_space s). is_space x"
      by (meson set_dropWhileD)
  qed
  then show ?thesis
    by (auto simp: truthy_def trim_def dropWhile_eq_Nil_conv)
qed

lemma set_join: "x \<in> set xs \<Longrightarrow> set x \<subseteq> set (join sep xs)"
  by (induction sep xs rule: join.induct) auto

lemma join_marked:
  assumes "xs \<noteq> []" and "\<forall>x \<in> set xs. c \<in> set x"
  shows "c \<in> set (join sep xs)"
proof -
  have "hd xs \<in> set xs" using assms(1) by simp
  then show ?thesis
    using assms(2) set_join by blast
qed

lemma typed_lines_terminated: "l \<in> set (buildTypedDirectives h) \<Longrightarrow> CHR '';'' \<in> set l"
  unfolding buildTypedDirectives_flat
  by (auto split: option.splits if_splits)

lemma semicolon_not_space: "\<not> is_space CHR '';''" and brace_not_space: "\<not> is_space CHR ''{''"
  by (simp_all add: is_space_def)

lemma typed_group_cases:
  "(buildTypedDirectives h = [] \<and> typed_group bi h = [])
   \<or> (buildTypedDirectives h \<noteq> [] \<and> CHR '';'' \<in> set (typed_group bi h))"
proof (cases "buildTypedDirectives h = []")
  case True
  then show ?thesis by (simp add: typed_group_def)
next
  case False
  then have "CHR '';'' \<in> set (join NL (map (\<lambda>d. bi @ d) (buildTypedDirectives h)))"
    by (intro join_marked) (auto simp: typed_lines_terminated)
  with False show ?thesis by (simp add: typed_group_def)
qed

lemma directive_group_cases:
  assumes "store_terminated h"
  shows "(directives h = [] \<and> directive_group bi h = [])
   \<or> (directives h \<noteq> [] \<and> CHR '';'' \<in> set (directive_group bi h))"
proof (cases "directives h = []")
  case True
  then show ?thesis by (simp add: directive_group_def)
next
  case False
  have "\<forall>d \<in> set (directives h). CHR '';'' \<in> set d"
    using assms last_in_set by (fastforce simp: store_terminated_def list_all_iff endsWith_iff)
  then have "CHR '';'' \<in> set (join NL (map (\<lambda>d. bi @ d) (directives h)))"
    using False by (intro join_marked) auto
  with False show ?thesis by (simp add: directive_group_def)
qed

lemma upstream_group_cases:
  "(upstreams h = [] \<and> upstream_group bi h = [])
   \<or> (upstreams h \<noteq> [] \<and> CHR ''{'' \<in> set (upstream_group bi h))"
proof (cases "upstreams h = []")
  case True
  then show ?thesis by (simp add: upstream_group_def)
next
  case False
  then have "CHR ''{'' \<in> set (join (NL @ NL) (map (UpstreamBlock_build bi) (upstreams h)))"
    by (intro join_marked) (auto simp: UpstreamBlock_build_def Let_def)
  with False show ?thesis by (simp add: upstream_group_def)
qed

lemma map_group_cases:
  "(maps h = [] \<and> map_group bi h = [])
   \<or> (maps h \<noteq> [] \<and> CHR ''{'' \<in> set (map_group bi h))"
proof (cases "maps h = []")
  case True
  then show ?thesis by (simp add: map_group_def)
next
  case False
  then have "CHR ''{'' \<in> set (join (NL @ NL) (map (MapBlock_build bi) (maps h)))"
    by (intro join_marked) (auto simp: MapBlock_build_def Let_def)
  with False show ?thesis by (simp add: map_group_def)
qed

lemma server_group_cases:
  "(servers h = [] \<and> server_group bi h = [])
   \<or> (servers h \<noteq> [] \<and> CHR ''{'' \<in> set (server_group bi h))"
proof (cases "servers h = []")
  case True
  then show ?thesis by (simp add: server_group_def)
next
  case False
  then have "CHR ''{'' \<in> set (join (NL @ NL) (map (ServerBlock_build bi) (servers h)))"
    by (intro join_marked) (auto simp: ServerBlock_build_def Let_def)
  with False show ?thesis by (simp add: server_group_def)
qed

lemma join_filter_separate: "join (NL @ NL) (filter (\<lambda>g. g \<noteq> []) gs) = spec_separate_groups gs"
proof (induction gs)
  case Nil
  show ?case by simp
next
  case (Cons g gs)
  show ?case
  proof (cases "filter (\<lambda>g. g \<noteq> []) gs")
    case Nil
    with Cons show ?thesis by auto
  next
    case (Cons a as)
    then have "a \<in> set (filter (\<lambda>g. g \<noteq> []) gs)"
      by simp
    then have "a \<noteq> []"
      by simp
    then have "join (NL @ NL) (a # as) \<noteq> []"
      by (cases as) simp_all
    with Cons Cons.IH show ?thesis by auto
  qed
qed

lemma set_separate_groups: "g \<in> set gs \<Longrightarrow> set g \<subseteq> set (spec_separate_groups gs)"
  by (induction gs) auto

lemma separate_groups_Nil: "spec_separate_groups gs = [] \<longleftrightarrow> (\<forall>g \<in> set gs. g = [])"
  by (induction gs) auto


lemma nonblank_mark: "c \<in> set g \<Longrightarrow> \<not> is_space c \<Longrightarrow> truthy (trim g)"
  by (auto simp: truthy_trim)

lemma trim_Nil: "\<not> truthy (trim [])"
  by (simp add: truthy_def trim_def)

text \<open>The new HTTP block has a terminated store and every operation on the block keeps it.\<close>

lemma store_terminated_addDirective:
  "store_terminated b \<Longrightarrow> store_terminated (addDirective s b)"
  by (simp add: store_terminated_def addDirective_def endsWith_terminate)

lemma store_terminated_HttpBlock_new: "store_terminated HttpBlock_new"
  by (simp add: store_terminated_def HttpBlock_new_def)

lemma store_terminated_structure:
  assumes "store_terminated h"
  shows "store_terminated (applyTypedDirectives d h)"
    and "store_terminated (addServer p ssl h)"
    and "store_terminated (addUpstream nm h)"
    and "store_terminated (addMap v out h)"
  using assms
  by (simp_all add: store_terminated_def applyTypedDirectives_def addServer_def addUpstream_def addMap_def)

text \<open>
  C1: an HTTP block renders its content groups in the order typed options, free-form
  directives in insertion order, upstream groups, variable maps, servers; the members of
  each collection are rendered in insertion order with one blank line between two
  members; one blank line separates any two non-empty groups and an empty group
  contributes nothing; with all five empty the block is the minimal form.
\<close>

theorem http_groups_in_order:
  assumes "store_terminated h"
  shows "HttpBlock_build indent h =
     (if buildTypedDirectives h = [] \<and> directives h = [] \<and> upstreams h = [] \<and> maps h = [] \<and> servers h = []
      then indent @ ''http {}''
      else indent @ ''http {'' @ NL
        @ spec_separate_groups
            [join NL (map (\<lambda>d. indent @ indent_unit @ d) (buildTypedDirectives h)),
             join NL (map (\<lambda>d. indent @ indent_unit @ d) (directives h)),
             join (NL @ NL) (map (UpstreamBlock_build (indent @ indent_unit)) (upstreams h)),
             join (NL @ NL) (map (MapBlock_build (indent @ indent_unit)) (maps h)),
             join (NL @ NL) (map (ServerBlock_build (indent @ indent_unit)) (servers h))]
        @ NL @ indent @ ''}'')"
proof -
  define bi where "bi = indent @ indent_unit"
  define gs where "gs = [typed_group bi h, directive_group bi h, upstream_group bi h, map_group bi h, server_group bi h]"
  have g: "g = [] \<or> truthy (trim g)" if "g \<in> set gs" for g
    using that typed_group_cases [of h bi] directive_group_cases [OF assms, of bi]
      upstream_group_cases [of h bi] map_group_cases [of h bi] server_group_cases [of h bi]
      nonblank_mark [OF _ semicolon_not_space] nonblank_mark [OF _ brace_not_space]
    unfolding gs_def by auto
  have "filter (\<lambda>part. truthy (trim part)) gs = filter (\<lambda>g. g \<noteq> []) gs"
    using g trim_Nil by (intro filter_cong) auto
  then have parts: "join (NL @ NL) (filter (\<lambda>part. truthy (trim part)) gs) = spec_separate_groups gs"
    by (simp only: join_filter_separate)
  have t: "truthy (trim (spec_separate_groups gs)) \<longleftrightarrow> spec_separate_groups gs \<noteq> []"
  proof
    assume "truthy (trim (spec_separate_groups gs))"
    then show "spec_separate_groups gs \<noteq> []"
      using trim_Nil by auto
  next
    assume "spec_separate_groups gs \<noteq> []"
    then obtain g where m: "g \<in> set gs" and n: "g \<noteq> []"
      by (auto simp: separate_groups_Nil)
    then have "truthy (trim g)"
      using g by blast
    then show "truthy (trim (spec_separate_groups gs))"
      using set_separate_groups [OF m] by (auto simp: truthy_trim)
  qed
  have e: "spec_separate_groups gs = [] \<longleftrightarrow>
      buildTypedDirectives h = [] \<and> directives h = [] \<and> upstreams h = [] \<and> maps h = [] \<and> servers h = []"
    using typed_group_cases [of h bi] directive_group_cases [OF assms, of bi]
      upstream_group_cases [of h bi] map_group_cases [of h bi] server_group_cases [of h bi]
    unfolding separate_groups_Nil gs_def by auto
  have b: "HttpBlock_build indent h =
     (if truthy (trim (join (NL @ NL) (filter (\<lambda>part. truthy (trim part)) gs)))
      then indent @ ''http {'' @ NL @ join (NL @ NL) (filter (\<lambda>part. truthy (trim part)) gs) @ NL @ indent @ ''}''
      else indent @ ''http {}'')"
    unfolding HttpBlock_build_def Let_def gs_def bi_def by (rule refl)
  have u: "gs = [join NL (map (\<lambda>d. indent @ indent_unit @ d) (buildTypedDirectives h)),
             join NL (map (\<lambda>d. indent @ indent_unit @ d) (directives h)),
             join (NL @ NL) (map (UpstreamBlock_build (indent @ indent_unit)) (upstreams h)),
             join (NL @ NL) (map (MapBlock_build (indent @ indent_unit)) (maps h)),
             join (NL @ NL) (map (ServerBlock_build (indent @ indent_unit)) (servers h))]"
    by (simp add: gs_def bi_def typed_group_def directive_group_def upstream_group_def map_group_def
        server_group_def)
  show ?thesis
    unfolding b parts t e u [symmetric] by simp
qed

theorem http_groups_in_order_witness:
  "store_terminated (addServer (Num 80) False (addDirective ''include mime.types''
      (applyTypedDirectives [Gzip (Some True), Sendfile (Some True)] HttpBlock_new)))
   \<and> HttpBlock_build [] (addServer (Num 80) False (addDirective ''include mime.types''
      (applyTypedDirectives [Gzip (Some True), Sendfile (Some True)] HttpBlock_new)))
     = ''http {\<newline>    sendfile on;\<newline>    gzip on;\<newline>\<newline>    include mime.types;\<newline>\<newline>    server {\<newline>        listen 80;\<newline>    }\<newline>}''
   \<and> spec_separate_groups [''    sendfile on;\<newline>    gzip on;'', ''    include mime.types;'', [], [],
        ''    server {\<newline>        listen 80;\<newline>    }'']
     = ''    sendfile on;\<newline>    gzip on;\<newline>\<newline>    include mime.types;\<newline>\<newline>    server {\<newline>        listen 80;\<newline>    }''"
proof -
  let ?h = "addServer (Num 80) False (addDirective ''include mime.types''
      (applyTypedDirectives [Gzip (Some True), Sendfile (Some True)] HttpBlock_new))"
  have s: "store_terminated ?h"
    by code_simp
  have e: "HttpBlock_build [] ?h
     = ''http {\<newline>    sendfile on;\<newline>    gzip on;\<newline>\<newline>    include mime.types;\<newline>\<newline>    server {\<newline>        listen 80;\<newline>    }\<newline>}''"
    unfolding http_groups_in_order [OF s, of "[]"] by code_simp
  have g: "spec_separate_groups [''    sendfile on;\<newline>    gzip on;'', ''    include mime.types;'', [], [],
        ''    server {\<newline>        listen 80;\<newline>    }'']
     = ''    sendfile on;\<newline>    gzip on;\<newline>\<newline>    include mime.types;\<newline>\<newline>    server {\<newline>        listen 80;\<newline>    }''"
    by simp
  show ?thesis
    by (intro conjI s e g)
qed


section \<open>Indentation and nesting depth\<close>

lemma sublist_trans: "sublist xs ys \<Longrightarrow> sublist ys zs \<Longrightarrow> sublist xs zs"
  unfolding sublist_def by (metis append.assoc)

lemma join_mem_framed:
  "x \<in> set xs \<Longrightarrow>
     \<exists>pre post. join sep xs = pre @ x @ post \<and> (pre = [] \<or> suffix sep pre) \<and> (post = [] \<or> prefix sep post)"
proof (induction sep xs rule: join.induct)
  case (1 sep)
  then show ?case by simp
next
  case (2 sep y)
  then have "join sep [y] = [] @ x @ []"
    by simp
  then show ?case
    by blast
next
  case (3 sep y z zs)
  show ?case
  proof (cases "x = y")
    case True
    have "join sep (y # z # zs) = [] @ x @ (sep @ join sep (z # zs))"
      using True by simp
    then show ?thesis
      by (metis prefixI)
  next
    case False
    then have "x \<in> set (z # zs)"
      using 3 by simp
    then obtain pre post where j: "join sep (z # zs) = pre @ x @ post"
      and p: "pre = [] \<or> suffix sep pre" and q: "post = [] \<or> prefix sep post"
      using 3 by blast
    have "join sep (y # z # zs) = (y @ sep @ pre) @ x @ post"
      using j by simp
    moreover have "suffix sep (y @ sep @ pre)"
      using p by (auto simp: suffix_def)
    ultimately show ?thesis
      using q by blast
  qed
qed

lemma sublist_join: "x \<in> set xs \<Longrightarrow> sublist x (join sep xs)"
  using join_mem_framed [of x xs sep] by (auto simp: sublist_def)

lemma framed_line:
  assumes "x \<in> set xs" and "prefix NL B"
  shows "sublist (NL @ x @ NL) (A @ NL @ join NL xs @ B)"
proof -
  obtain pre post where j: "join NL xs = pre @ x @ post"
    and p: "pre = [] \<or> suffix NL pre" and q: "post = [] \<or> prefix NL post"
    using join_mem_framed [OF assms(1)] by blast
  obtain B' where b: "B = NL @ B'"
    using assms(2) by (auto simp: prefix_def)
  obtain L where l: "A @ NL @ pre = L @ NL"
    using p by (auto simp: suffix_def)
  obtain R where r: "post @ B = NL @ R"
    using q b by (auto simp: prefix_def)
  have "A @ NL @ join NL xs @ B = L @ (NL @ x @ NL) @ R"
    using l r j by (metis append.assoc)
  then show ?thesis
    by (metis sublist_appendI)
qed

lemma append_fun: "(@) (a @ b) = (\<lambda>d. a @ b @ d)"
  by (rule ext) simp

lemma server_directive_line:
  assumes "d \<in> set (directives s)"
  shows "sublist (NL @ ((indent @ indent_unit) @ d) @ NL) (ServerBlock_build indent s)"
proof -
  let ?B = "(if truthy (join (NL @ NL) (map (LocationBlock_build (indent @ indent_unit)) (locations s)))
            then NL @ NL @ join (NL @ NL) (map (LocationBlock_build (indent @ indent_unit)) (locations s))
            else []) @ NL @ indent @ ''}''"
  have "(indent @ indent_unit) @ d \<in> set (map (\<lambda>d. (indent @ indent_unit) @ d) (directives s))"
    using assms by auto
  moreover have "prefix NL ?B"
    by (simp add: prefix_def)
  moreover have "ServerBlock_build indent s = (indent @ ''server {'') @ NL @ join NL (map (\<lambda>d. (indent @ indent_unit) @ d) (directives s)) @ ?B"
    unfolding ServerBlock_build_def Let_def formatDirectives_def by (simp add: append_fun)
  ultimately show ?thesis
    by (simp only: framed_line)
qed

lemma location_directive_line:
  assumes "d \<in> set (directives l)"
  shows "sublist (NL @ ((indent @ indent_unit) @ d) @ NL) (LocationBlock_build indent l)"
proof -
  let ?B = "(if truthy (join (NL @ NL) (map (IfBlock_build (indent @ indent_unit)) (ifBlocks l)))
            then NL @ NL @ join (NL @ NL) (map (IfBlock_build (indent @ indent_unit)) (ifBlocks l))
            else []) @ NL @ indent @ ''}''"
  have "(indent @ indent_unit) @ d \<in> set (map (\<lambda>d. (indent @ indent_unit) @ d) (directives l))"
    using assms by auto
  moreover have "prefix NL ?B"
    by (simp add: prefix_def)
  moreover have "LocationBlock_build indent l = (indent @ ''location '' @ (if exact l then ''='' else []) @ '' '' @ path l @ '' {'') @ NL
        @ join NL (map (\<lambda>d. (indent @ indent_unit) @ d) (directives l)) @ ?B"
    unfolding LocationBlock_build_def Let_def formatDirectives_def by (simp add: append_fun)
  ultimately show ?thesis
    by (simp only: framed_line)
qed

lemma if_directive_line:
  assumes "d \<in> set (directives b)"
  shows "sublist (NL @ (indent @ indent_unit @ d) @ NL) (IfBlock_build indent b)"
proof -
  have "indent @ indent_unit @ d \<in> set (map (\<lambda>d. indent @ indent_unit @ d) (directives b))"
    using assms by auto
  moreover have "prefix NL (NL @ indent @ ''}'')"
    by simp
  moreover have "IfBlock_build indent b = (indent @ ''if ('' @ condition b @ '') {'') @ NL
        @ join NL (map (\<lambda>d. indent @ indent_unit @ d) (directives b)) @ (NL @ indent @ ''}'')"
    by (simp add: IfBlock_build_def Let_def)
  ultimately show ?thesis
    by (simp only: framed_line)
qed

lemma sublist_nonempty: "sublist x y \<Longrightarrow> x \<noteq> [] \<Longrightarrow> y \<noteq> []"
  by (auto simp: sublist_def)

lemma if_in_location:
  assumes "b \<in> set (ifBlocks l)"
  shows "sublist (IfBlock_build (indent @ indent_unit) b) (LocationBlock_build indent l)"
proof -
  let ?ifs = "join (NL @ NL) (map (IfBlock_build (indent @ indent_unit)) (ifBlocks l))"
  have s: "sublist (IfBlock_build (indent @ indent_unit) b) ?ifs"
    using assms by (intro sublist_join) auto
  moreover have "IfBlock_build (indent @ indent_unit) b \<noteq> []"
    by (simp add: IfBlock_build_def)
  ultimately have "truthy ?ifs"
    unfolding truthy_def by (rule sublist_nonempty)
  then have "LocationBlock_build indent l =
      (indent @ ''location '' @ (if exact l then ''='' else []) @ '' '' @ path l @ '' {'' @ NL
        @ formatDirectives (indent @ indent_unit) l @ NL @ NL) @ ?ifs @ (NL @ indent @ ''}'')"
    by (simp add: LocationBlock_build_def Let_def)
  then have "sublist ?ifs (LocationBlock_build indent l)"
    by (metis sublist_appendI)
  with s show ?thesis
    by (rule sublist_trans)
qed

lemma location_in_server:
  assumes "l \<in> set (locations s)"
  shows "sublist (LocationBlock_build (indent @ indent_unit) l) (ServerBlock_build indent s)"
proof -
  let ?locs = "join (NL @ NL) (map (LocationBlock_build (indent @ indent_unit)) (locations s))"
  have s: "sublist (LocationBlock_build (indent @ indent_unit) l) ?locs"
    using assms by (intro sublist_join) auto
  moreover have "LocationBlock_build (indent @ indent_unit) l \<noteq> []"
    by (simp add: LocationBlock_build_def Let_def)
  ultimately have "truthy ?locs"
    unfolding truthy_def by (rule sublist_nonempty)
  then have "ServerBlock_build indent s =
      (indent @ ''server {'' @ NL @ formatDirectives (indent @ indent_unit) s @ NL @ NL) @ ?locs
        @ (NL @ indent @ ''}'')"
    by (simp add: ServerBlock_build_def Let_def)
  then have "sublist ?locs (ServerBlock_build indent s)"
    by (metis sublist_appendI)
  with s show ?thesis
    by (rule sublist_trans)
qed


lemma server_in_http:
  assumes "s \<in> set (servers h)"
  shows "sublist (ServerBlock_build (indent @ indent_unit) s) (HttpBlock_build indent h)"
proof -
  define bi where "bi = indent @ indent_unit"
  define gs where "gs = [typed_group bi h, directive_group bi h, upstream_group bi h, map_group bi h, server_group bi h]"
  define parts where "parts = join (NL @ NL) (filter (\<lambda>part. truthy (trim part)) gs)"
  have 1: "sublist (ServerBlock_build bi s) (server_group bi h)"
    unfolding server_group_def using assms by (intro sublist_join) auto
  have "CHR ''{'' \<in> set (server_group bi h)"
    using server_group_cases [of h bi] assms by auto
  then have "truthy (trim (server_group bi h))"
    using brace_not_space by (rule nonblank_mark)
  then have "server_group bi h \<in> set (filter (\<lambda>part. truthy (trim part)) gs)"
    by (simp add: gs_def)
  then have 2: "sublist (server_group bi h) parts"
    unfolding parts_def by (rule sublist_join)
  have "CHR ''{'' \<in> set parts"
    using \<open>CHR ''{'' \<in> set (server_group bi h)\<close> set_mono_sublist [OF 2] by blast
  then have t: "truthy (trim parts)"
    using brace_not_space by (rule nonblank_mark)
  have "HttpBlock_build indent h =
      (if truthy (trim parts) then indent @ ''http {'' @ NL @ parts @ NL @ indent @ ''}'' else indent @ ''http {}'')"
    unfolding HttpBlock_build_def Let_def parts_def gs_def bi_def by (rule refl)
  then have "HttpBlock_build indent h = (indent @ ''http {'' @ NL) @ parts @ (NL @ indent @ ''}'')"
    using t by simp
  then have "sublist parts (HttpBlock_build indent h)"
    by (metis sublist_appendI)
  with 1 2 show ?thesis
    unfolding bi_def by (meson sublist_trans)
qed

lemma http_in_document:
  assumes "httpBlock c = Some h"
  shows "sublist (HttpBlock_build [] h) (NginxConfig_build c)"
proof -
  obtain ps where "NginxConfig_build c = join (NL @ NL) (ps @ [HttpBlock_build [] h]) @ NL"
    using assms by (simp add: NginxConfig_build_def Let_def)
  moreover have "sublist (HttpBlock_build [] h) (join (NL @ NL) (ps @ [HttpBlock_build [] h]))"
    by (intro sublist_join) simp
  ultimately show ?thesis
    by (metis sublist_append_rightI sublist_trans)
qed

text \<open>
  C5, as the specification states it, fails: in the rendered document the directive of a
  location inside a server inside the HTTP section stands behind three units of
  indentation, and nowhere behind four.
\<close>

theorem indentation_per_level_counterexample:
  "NginxConfig_build example_document
     = ''http {\<newline>    server {\<newline>        listen 80;\<newline>\<newline>        location  / {\<newline>            root /var/www/html;\<newline>\<newline>            if ($request_method = POST) {\<newline>                return 405;\<newline>            }\<newline>        }\<newline>    }\<newline>}\<newline>''
   \<and> \<not> sublist (NL @ concat (replicate 4 indent_unit) @ ''root /var/www/html;'' @ NL)
         (NginxConfig_build example_document)"
  by code_simp

text \<open>
  C5 (amended): indentation grows by one fixed unit of four spaces per nesting level
  below the document, which itself adds none: a directive inside a location inside a
  server inside the HTTP section of a document is indented by three units (twelve
  spaces). A directive of the server has two units, and a directive of a conditional
  section inside the location has four.
\<close>

theorem indentation_per_level:
  assumes "httpBlock c = Some h" and "s \<in> set (servers h)" and "l \<in> set (locations s)"
  shows "(d \<in> set (directives l) \<longrightarrow>
            sublist (NL @ concat (replicate 3 indent_unit) @ d @ NL) (NginxConfig_build c))
       \<and> (d \<in> set (directives s) \<longrightarrow>
            sublist (NL @ concat (replicate 2 indent_unit) @ d @ NL) (NginxConfig_build c))
       \<and> (b \<in> set (ifBlocks l) \<and> d \<in> set (directives b) \<longrightarrow>
            sublist (NL @ concat (replicate 4 indent_unit) @ d @ NL) (NginxConfig_build c))"
proof -
  have hd: "sublist (HttpBlock_build [] h) (NginxConfig_build c)"
    using assms(1) by (rule http_in_document)
  have sh: "sublist (ServerBlock_build ([] @ indent_unit) s) (HttpBlock_build [] h)"
    using assms(2) by (rule server_in_http)
  have ls: "sublist (LocationBlock_build (([] @ indent_unit) @ indent_unit) l)
              (ServerBlock_build ([] @ indent_unit) s)"
    using assms(3) by (rule location_in_server)
  have sd: "sublist (ServerBlock_build ([] @ indent_unit) s) (NginxConfig_build c)"
    using sh hd by (rule sublist_trans)
  have ld: "sublist (LocationBlock_build (([] @ indent_unit) @ indent_unit) l) (NginxConfig_build c)"
    using ls sd by (rule sublist_trans)
  show ?thesis
  proof (intro conjI impI)
    assume "d \<in> set (directives l)"
    then have "sublist (NL @ (((([] @ indent_unit) @ indent_unit) @ indent_unit) @ d) @ NL)
        (LocationBlock_build (([] @ indent_unit) @ indent_unit) l)"
      by (rule location_directive_line)
    then have "sublist (NL @ (((([] @ indent_unit) @ indent_unit) @ indent_unit) @ d) @ NL) (NginxConfig_build c)"
      using ld by (rule sublist_trans)
    then show "sublist (NL @ concat (replicate 3 indent_unit) @ d @ NL) (NginxConfig_build c)"
      by (simp add: numeral_eq_Suc)
  next
    assume "d \<in> set (directives s)"
    then have "sublist (NL @ ((([] @ indent_unit) @ indent_unit) @ d) @ NL)
        (ServerBlock_build ([] @ indent_unit) s)"
      by (rule server_directive_line)
    then have "sublist (NL @ ((([] @ indent_unit) @ indent_unit) @ d) @ NL) (NginxConfig_build c)"
      using sd by (rule sublist_trans)
    then show "sublist (NL @ concat (replicate 2 indent_unit) @ d @ NL) (NginxConfig_build c)"
      by (simp add: numeral_eq_Suc)
  next
    assume a: "b \<in> set (ifBlocks l) \<and> d \<in> set (directives b)"
    then have "sublist (NL @ ((((([] @ indent_unit) @ indent_unit) @ indent_unit) @ indent_unit) @ d) @ NL)
        (IfBlock_build ((([] @ indent_unit) @ indent_unit) @ indent_unit) b)"
      using if_directive_line [of d b "(([] @ indent_unit) @ indent_unit) @ indent_unit"] by simp
    moreover have "sublist (IfBlock_build ((([] @ indent_unit) @ indent_unit) @ indent_unit) b)
        (LocationBlock_build (([] @ indent_unit) @ indent_unit) l)"
      using a by (intro if_in_location) simp
    ultimately have "sublist (NL @ ((((([] @ indent_unit) @ indent_unit) @ indent_unit) @ indent_unit) @ d) @ NL)
        (NginxConfig_build c)"
      using ld by (meson sublist_trans)
    then show "sublist (NL @ concat (replicate 4 indent_unit) @ d @ NL) (NginxConfig_build c)"
      by (simp add: numeral_eq_Suc)
  qed
qed


theorem indentation_per_level_witness:
  "sublist (NL @ concat (replicate 3 indent_unit) @ ''root /var/www/html;'' @ NL) (NginxConfig_build example_document)
   \<and> sublist (NL @ concat (replicate 2 indent_unit) @ ''listen 80;'' @ NL) (NginxConfig_build example_document)
   \<and> sublist (NL @ concat (replicate 4 indent_unit) @ ''return 405;'' @ NL) (NginxConfig_build example_document)"
proof -
  have h: "httpBlock example_document = Some example_http"
    by (simp add: example_document_def)
  have s: "example_server \<in> set (servers example_http)"
    by (simp add: example_http_def)
  have l: "example_location \<in> set (locations example_server)"
    by (simp add: example_server_def)
  show ?thesis
    using indentation_per_level [OF h s l, of "''root /var/www/html;''"]
      indentation_per_level [OF h s l, of "''listen 80;''"]
      indentation_per_level [OF h s l, of "''return 405;''"
        "\<lparr>directives = [''return 405;''], condition = ''$request_method = POST''\<rparr>"]
    by (simp add: example_location_def example_server_def)
qed

end
